theory Spec2Isabelle
  imports
    Main
    "HOL-Library.AList"
    "HOL-Library.Char_ord"
    "HOL-Library.List_Lexorder"
begin

section \<open>Strings\<close>

text \<open>
  A Go \<open>string\<close> is a sequence of bytes, here a \<open>char list\<close>. Go compares strings
  with \<open><\<close> byte by byte, a proper prefix being smaller: this is the lexicographic
  order on \<open>char list\<close> over the byte order of \<open>char\<close>.
\<close>

definition HasPrefix :: "string \<Rightarrow> string \<Rightarrow> bool" where
  \<comment> \<open>\<open>strings.HasPrefix(s, prefix)\<close>: \<open>len(s) >= len(prefix) && s[:len(prefix)] == prefix\<close>\<close>
  "HasPrefix s pre = (length pre \<le> length s \<and> take (length pre) s = pre)"

definition HasSuffix :: "string \<Rightarrow> string \<Rightarrow> bool" where
  \<comment> \<open>\<open>strings.HasSuffix(s, suffix)\<close>\<close>
  "HasSuffix s suf = (length suf \<le> length s \<and> drop (length s - length suf) s = suf)"

fun Contains :: "string \<Rightarrow> string \<Rightarrow> bool" where
  \<comment> \<open>\<open>strings.Contains(s, substr)\<close>: \<open>substr\<close> occurs at some offset of \<open>s\<close>\<close>
  "Contains [] substr = (substr = [])"
| "Contains (c # s) substr = (HasPrefix (c # s) substr \<or> Contains s substr)"

definition byteIn :: "char \<Rightarrow> char \<Rightarrow> char \<Rightarrow> bool" where
  \<comment> \<open>\<open>lo <= c && c <= hi\<close> on bytes\<close>
  "byteIn lo hi c = (lo \<le> c \<and> c \<le> hi)"

definition toLowerByte :: "char \<Rightarrow> char" where
  \<comment> \<open>\<open>c += 'a' - 'A'\<close> for \<open>'A' <= c <= 'Z'\<close>: adding 32 there sets the bit of value 32\<close>
  "toLowerByte c =
     (if byteIn (CHR ''A'') (CHR ''Z'') c
      then (case c of Char b0 b1 b2 b3 b4 b5 b6 b7 \<Rightarrow> Char b0 b1 b2 b3 b4 True b6 b7)
      else c)"

definition ToLower :: "string \<Rightarrow> string" where
  \<comment> \<open>\<open>strings.ToLower\<close> on ASCII: \<open>A\<close>..\<open>Z\<close> become \<open>a\<close>..\<open>z\<close>. Bytes from \<open>0x80\<close> on
      are left as they are (Go would map the letters of other scripts as well).\<close>
  "ToLower s = map toLowerByte s"

fun Ext_loop :: "string \<Rightarrow> string \<Rightarrow> string" where
  \<comment> \<open>the loop of \<open>path.Ext\<close>, from the last byte backwards: the first argument is the
      part not yet visited, reversed; the second the part already visited\<close>
  "Ext_loop [] visited = []"
| "Ext_loop (c # todo) visited =
     (if c = CHR ''/'' then []
      else if c = CHR ''.'' then c # visited
      else Ext_loop todo (c # visited))"

definition Ext :: "string \<Rightarrow> string" where
  \<comment> \<open>\<open>path.Ext\<close>: the suffix from the last dot of the final slash-separated element\<close>
  "Ext p = Ext_loop (rev p) []"

definition Cut :: "string \<Rightarrow> char \<Rightarrow> string \<times> string \<times> bool" where
  \<comment> \<open>\<open>strings.Cut(s, sep)\<close> for a one-byte separator: around its first occurrence\<close>
  "Cut s sep =
     (if sep \<in> set s
      then (takeWhile (\<lambda>c. c \<noteq> sep) s, drop 1 (dropWhile (\<lambda>c. c \<noteq> sep) s), True)
      else (s, [], False))"

definition CutLast :: "string \<Rightarrow> char \<Rightarrow> string \<times> string" where
  \<comment> \<open>\<open>s[:i]\<close> and \<open>s[i+1:]\<close> for \<open>i = strings.LastIndex(s, sep)\<close>, when \<open>sep\<close> occurs\<close>
  "CutLast s sep =
     (rev (drop 1 (dropWhile (\<lambda>c. c \<noteq> sep) (rev s))), rev (takeWhile (\<lambda>c. c \<noteq> sep) (rev s)))"

section \<open>Parsed URLs\<close>

text \<open>
  The finder hands every URL to Go's standard library (\<open>url.Parse\<close>, \<open>URL.String\<close>).
  The records have the fields of \<open>url.Userinfo\<close> and \<open>url.URL\<close>, without \<open>RawPath\<close> and
  \<open>RawFragment\<close>, the hints for percent-encoding; the two functions reach the finder
  through the record \<open>pkgs\<close> below, so that what is proved of the finder holds whatever
  parser it is linked with.
\<close>

record Userinfo =
  username :: string
  password :: string
  passwordSet :: bool

record URL =
  Scheme :: string
  Opaque :: string
  User :: "Userinfo option"
  Host :: string
  Path :: string
  OmitHost :: bool
  ForceQuery :: bool
  RawQuery :: string
  Fragment :: string

definition URL_zero :: URL where
  "URL_zero = \<lparr>Scheme = [], Opaque = [], User = None, Host = [], Path = [],
     OmitHost = False, ForceQuery = False, RawQuery = [], Fragment = []\<rparr>"

subsection \<open>A model of \<open>net/url\<close>\<close>

text \<open>
  \<open>net_url_Parse\<close> and \<open>net_url_String\<close> follow \<open>url.Parse\<close> and \<open>URL.String\<close> of the Go
  distribution on URLs that carry no percent-escape and no bracketed IPv6 host, and whose
  bytes need no escaping when written back: scheme detection, the query and fragment
  splits, opaque URLs, the colon rule for relative references, and the split of the
  authority into user information and host. Percent-decoding (\<open>unescape\<close>, \<open>RawPath\<close>)
  and the check of the host's bytes are left out. The two functions are used to run the
  finder on concrete URLs of that kind only.
\<close>

definition stringContainsCTLByte :: "string \<Rightarrow> bool" where
  "stringContainsCTLByte s = list_ex (\<lambda>b. b < CHR '' '' \<or> b = CHR 0x7F) s"

definition isLetter :: "char \<Rightarrow> bool" where
  "isLetter c = (byteIn (CHR ''a'') (CHR ''z'') c \<or> byteIn (CHR ''A'') (CHR ''Z'') c)"

definition isDigit :: "char \<Rightarrow> bool" where
  "isDigit c = byteIn (CHR ''0'') (CHR ''9'') c"

fun getScheme_loop :: "string \<Rightarrow> string \<Rightarrow> string \<Rightarrow> string + string \<times> string" where
  \<comment> \<open>the loop of \<open>getScheme\<close> at index \<open>i\<close>: \<open>seen\<close> is \<open>rawURL[:i]\<close>, the last argument
      \<open>rawURL[i:]\<close>; \<open>Inl\<close> is the error, \<open>Inr\<close> the scheme and the rest\<close>
  "getScheme_loop rawURL seen [] = Inr ([], rawURL)"
| "getScheme_loop rawURL seen (c # cs) =
     (if isLetter c then getScheme_loop rawURL (seen @ [c]) cs
      else if isDigit c \<or> c = CHR ''+'' \<or> c = CHR ''-'' \<or> c = CHR ''.''
        then (if seen = [] then Inr ([], rawURL) else getScheme_loop rawURL (seen @ [c]) cs)
      else if c = CHR '':''
        then (if seen = [] then Inl ''missing protocol scheme'' else Inr (seen, cs))
      else Inr ([], rawURL))"

definition getScheme :: "string \<Rightarrow> string + string \<times> string" where
  "getScheme rawURL = getScheme_loop rawURL [] rawURL"

definition validUserinfo :: "string \<Rightarrow> bool" where
  "validUserinfo s = list_all (\<lambda>r. isLetter r \<or> isDigit r \<or> r \<in> set ''-._:~!$&'()*+,;=%@'') s"

definition validOptionalPort :: "string \<Rightarrow> bool" where
  "validOptionalPort port =
     (case port of [] \<Rightarrow> True | c # ds \<Rightarrow> c = CHR '':'' \<and> list_all isDigit ds)"

definition parseHost :: "string \<Rightarrow> string + string" where
  "parseHost host =
     (if CHR '':'' \<in> set host
         \<and> \<not> validOptionalPort (CHR '':'' # snd (CutLast host (CHR '':'')))
      then Inl ''invalid port after host''
      else Inr host)"

definition parseAuthority :: "string \<Rightarrow> string + Userinfo option \<times> string" where
  "parseAuthority authority =
     (if CHR ''@'' \<notin> set authority
      then (case parseHost authority of Inl err \<Rightarrow> Inl err | Inr host \<Rightarrow> Inr (None, host))
      else
        (case parseHost (snd (CutLast authority (CHR ''@''))) of
           Inl err \<Rightarrow> Inl err
         | Inr host \<Rightarrow>
            (let userinfo = fst (CutLast authority (CHR ''@'')) in
             if \<not> validUserinfo userinfo then Inl ''net/url: invalid userinfo''
             else if CHR '':'' \<notin> set userinfo
               then Inr (Some \<lparr>username = userinfo, password = [], passwordSet = False\<rparr>, host)
             else Inr (Some \<lparr>username = fst (Cut userinfo (CHR '':'')),
                             password = fst (snd (Cut userinfo (CHR '':''))),
                             passwordSet = True\<rparr>, host))))"

definition parse :: "string \<Rightarrow> string + URL" where
  \<comment> \<open>\<open>parse(rawURL, viaRequest = false)\<close>\<close>
  "parse rawURL =
     (if stringContainsCTLByte rawURL then Inl ''net/url: invalid control character in URL''
      else if rawURL = ''*'' then Inr (URL_zero\<lparr>Path := ''*''\<rparr>)
      else
        (case getScheme rawURL of
           Inl err \<Rightarrow> Inl err
         | Inr (scheme, rest0) \<Rightarrow>
            (let url0 = URL_zero\<lparr>Scheme := ToLower scheme\<rparr>;
                 force = (HasSuffix rest0 ''?'' \<and> count_list rest0 (CHR ''?'') = 1);
                 url = (if force then url0\<lparr>ForceQuery := True\<rparr>
                        else url0\<lparr>RawQuery := fst (snd (Cut rest0 (CHR ''?'')))\<rparr>);
                 rest = (if force then take (length rest0 - 1) rest0
                         else fst (Cut rest0 (CHR ''?'')))
             in
               if \<not> HasPrefix rest ''/'' \<and> Scheme url \<noteq> [] then Inr (url\<lparr>Opaque := rest\<rparr>)
               else if \<not> HasPrefix rest ''/'' \<and> Contains (fst (Cut rest (CHR ''/''))) '':''
                 then Inl ''first path segment in URL cannot contain colon''
               else if (Scheme url \<noteq> [] \<or> \<not> HasPrefix rest ''///'') \<and> HasPrefix rest ''//''
                 then
                   (let authority = takeWhile (\<lambda>c. c \<noteq> CHR ''/'') (drop 2 rest);
                        rest' = dropWhile (\<lambda>c. c \<noteq> CHR ''/'') (drop 2 rest)
                    in case parseAuthority authority of
                         Inl err \<Rightarrow> Inl err
                       | Inr (user, host) \<Rightarrow> Inr (url\<lparr>User := user, Host := host, Path := rest'\<rparr>))
               else if Scheme url \<noteq> [] \<and> HasPrefix rest ''/''
                 then Inr (url\<lparr>OmitHost := True, Path := rest\<rparr>)
               else Inr (url\<lparr>Path := rest\<rparr>))))"

definition net_url_Parse :: "string \<Rightarrow> string + URL" where
  \<comment> \<open>\<open>url.Parse\<close>: the fragment is cut off first\<close>
  "net_url_Parse rawURL =
     (case parse (fst (Cut rawURL (CHR ''#''))) of
        Inl err \<Rightarrow> Inl err
      | Inr url \<Rightarrow> Inr (url\<lparr>Fragment := fst (snd (Cut rawURL (CHR ''#'')))\<rparr>))"

definition Userinfo_String :: "Userinfo \<Rightarrow> string" where
  "Userinfo_String ui = username ui @ (if passwordSet ui then '':'' @ password ui else [])"

definition net_url_String :: "URL \<Rightarrow> string" where
  \<comment> \<open>\<open>(*URL).String\<close>, the buffer being built up in \<open>buf0\<close>, \<open>buf1\<close>, \<open>buf2\<close>\<close>
  "net_url_String u =
     (let buf0 = (if Scheme u \<noteq> [] then Scheme u @ '':'' else []);
          buf1 =
            (if Opaque u \<noteq> [] then buf0 @ Opaque u
             else
               (let b1 =
                      (if Scheme u \<noteq> [] \<or> Host u \<noteq> [] \<or> User u \<noteq> None
                       then
                         (if OmitHost u \<and> Host u = [] \<and> User u = None then buf0
                          else buf0
                            @ (if Host u \<noteq> [] \<or> Path u \<noteq> [] \<or> User u \<noteq> None then ''//'' else [])
                            @ (case User u of None \<Rightarrow> [] | Some ui \<Rightarrow> Userinfo_String ui @ ''@'')
                            @ Host u)
                       else buf0);
                    b2 = (if Path u \<noteq> [] \<and> \<not> HasPrefix (Path u) ''/'' \<and> Host u \<noteq> []
                          then b1 @ ''/'' else b1);
                    b3 = (if b2 = [] \<and> Contains (fst (Cut (Path u) (CHR ''/''))) '':''
                          then b2 @ ''./'' else b2)
                in b3 @ Path u));
          buf2 = (if ForceQuery u \<or> RawQuery u \<noteq> [] then buf1 @ ''?'' @ RawQuery u else buf1)
      in if Fragment u \<noteq> [] then buf2 @ ''#'' @ Fragment u else buf2)"

section \<open>Collaborators\<close>

text \<open>
  Modelled from the spec: the \<open>Endpoint\<close> struct of package \<open>lfshttp\<close> is not among the
  sources. The finder reads and writes its fields \<open>Url\<close> and \<open>Operation\<close>; the spec (section
  3) adds "optional transport-specific metadata (e.g., SSH user/host/port decomposition)",
  held here in three more string fields. \<open>Endpoint_zero\<close> is Go's \<open>lfshttp.Endpoint{}\<close>.
\<close>

record Endpoint =
  Url :: string
  SshUserAndHost :: string
  SshPath :: string
  SshPort :: string
  Operation :: string

definition Endpoint_zero :: Endpoint where
  "Endpoint_zero = \<lparr>Url = [], SshUserAndHost = [], SshPath = [], SshPort = [], Operation = []\<rparr>"

text \<open>
  \<open>config.Environment\<close> is an interface. The finder calls its \<open>Get\<close>, which returns a
  value and whether the key is set (\<open>Some\<close> the value when it is), and its \<open>All\<close>, a
  \<open>map[string][]string\<close> from every key to its values, held as the list of entries in
  the order in which \<open>range\<close> visits them.
\<close>

record Environment =
  Get :: "string \<Rightarrow> string option"
  All' :: "(string \<times> string list) list"

text \<open>
  Modelled from the spec: the type \<open>git.Configuration\<close> is not among the sources. The
  finder only writes through it; the spec (section 6) gives it "a local-write surface:
  \<open>setLocal(key, value)\<close>, \<open>unsetLocal(key)\<close>". It is held as the map from the keys of the
  local configuration to their values. The finder drops what the two calls return.
\<close>

type_synonym Configuration = "string \<rightharpoonup> string"

definition SetLocal :: "Configuration \<Rightarrow> string \<Rightarrow> string \<Rightarrow> Configuration" where
  "SetLocal c key val = c(key \<mapsto> val)"

definition UnsetLocalKey :: "Configuration \<Rightarrow> string \<Rightarrow> Configuration" where
  "UnsetLocalKey c key = c(key := None)"

text \<open>
  The functions that the finder calls in other packages and that are not among the
  sources are parameters of the model: the two entry points of \<open>net/url\<close> (\<open>Inl\<close> is the
  parse error), the four constructors and the "unknown" sentinel of \<open>lfshttp\<close>,
  \<open>git.ValidateRemote\<close> (\<open>True\<close> when it returns no error), and \<open>config.NewURLConfig\<close>,
  which gives the \<open>Get\<close> method of the URL-scoped configuration built on an environment.
\<close>

record pkgs =
  url_Parse :: "string \<Rightarrow> string + URL"
  URL_String :: "URL \<Rightarrow> string"
  EndpointFromSshUrl :: "URL \<Rightarrow> Endpoint"
  EndpointFromHttpUrl :: "URL \<Rightarrow> Endpoint"
  EndpointFromBareSshUrl :: "string \<Rightarrow> Endpoint"
  EndpointFromLocalPath :: "string \<Rightarrow> Endpoint"
  UrlUnknown :: string
  ValidateRemote :: "string \<Rightarrow> bool"
  NewURLConfig :: "Environment \<Rightarrow> string \<Rightarrow> string \<Rightarrow> string \<Rightarrow> string \<times> bool"

section \<open>The endpoint finder\<close>

type_synonym AccessMode = string

definition NoneAccess :: AccessMode where "NoneAccess = ''none''"
definition BasicAccess :: AccessMode where "BasicAccess = ''basic''"
definition PrivateAccess :: AccessMode where "PrivateAccess = ''private''"
definition NegotiateAccess :: AccessMode where "NegotiateAccess = ''negotiate''"
definition NTLMAccess :: AccessMode where "NTLMAccess = ''ntlm''"
definition emptyAccess :: AccessMode where "emptyAccess = []"
definition defaultRemote :: string where "defaultRemote = ''origin''"

record Access =
  mode :: AccessMode
  url :: string

definition Upgrade :: "Access \<Rightarrow> AccessMode \<Rightarrow> Access" where
  "Upgrade a newMode = \<lparr>mode = newMode, url = url a\<rparr>"

text \<open>
  The state of the finder. \<open>gitEnv\<close> is \<open>None\<close> for Go's \<open>nil\<close> interface value.
  \<open>urlConfig\<close> is the \<open>Get\<close> method of \<open>*config.URLConfig\<close>, returning a value and a flag.
  The two mutexes are left out: the model runs one call at a time.
  \<open>urlConfigGets\<close> is not a field of the Go struct: it records, in order, the arguments
  of every call of \<open>urlConfig.Get\<close>, so that lookups can be counted.
\<close>

record endpointGitFinder =
  gitConfig :: Configuration
  gitEnv :: "Environment option"
  gitProtocol :: string
  aliases :: "(string \<times> string) list"
  urlAccess :: "string \<rightharpoonup> AccessMode"
  urlConfig :: "string \<Rightarrow> string \<Rightarrow> string \<Rightarrow> string \<times> bool"
  urlConfigGets :: "(string \<times> string \<times> string) list"

subsection \<open>Alias table\<close>

text \<open>
  \<open>aliases\<close> is a Go \<open>map[string]string\<close>. It is held as an association list: the
  order of the list is the order in which \<open>range\<close> visits the keys, which Go leaves
  unspecified, so a statement about every list is a statement about every iteration
  order. Reading a key that is absent gives the zero value \<open>""\<close>.
\<close>

definition alias_at :: "(string \<times> string) list \<Rightarrow> string \<Rightarrow> string" where
  "alias_at al k = (case map_of al k of None \<Rightarrow> [] | Some v \<Rightarrow> v)"

fun longestalias_loop :: "string \<Rightarrow> string list \<Rightarrow> string \<Rightarrow> string" where
  \<comment> \<open>the \<open>for alias := range e.aliases\<close> loop of \<open>ReplaceUrlAlias\<close>, third argument \<open>longestalias\<close>\<close>
  "longestalias_loop rawurl [] longestalias = longestalias"
| "longestalias_loop rawurl (alias # rest) longestalias =
     (if \<not> HasPrefix rawurl alias then longestalias_loop rawurl rest longestalias
      else if longestalias < alias then longestalias_loop rawurl rest alias
      else longestalias_loop rawurl rest longestalias)"

definition ReplaceUrlAlias :: "endpointGitFinder \<Rightarrow> string \<Rightarrow> string" where
  "ReplaceUrlAlias e rawurl =
     (let longestalias = longestalias_loop rawurl (map fst (aliases e)) []
      in if length longestalias > 0
         then alias_at (aliases e) longestalias @ drop (length longestalias) rawurl
         else rawurl)"

subsection \<open>Construction\<close>

datatype panic = IndexOutOfRange | SliceBoundsOutOfRange | NilDereference

definition aliasPrefix :: string where
  "aliasPrefix = ''url.''"

definition storeAlias ::
  "(string \<times> string) list \<Rightarrow> string \<Rightarrow> string list \<Rightarrow> string \<Rightarrow> panic + (string \<times> string) list" where
  \<comment> \<open>\<open>aliases[value[len(value)-1]] = key[len(aliasPrefix) : len(key)-len(suffix)]\<close>; the
      warning printed when the alias is already there is left out\<close>
  "storeAlias al key val suffix =
     (if val = [] then Inl IndexOutOfRange
      else if length key < length suffix \<or> length key - length suffix < length aliasPrefix
        then Inl SliceBoundsOutOfRange
      else Inr (AList.update (last val)
                  (drop (length aliasPrefix) (take (length key - length suffix) key)) al))"

fun initAliases_loop ::
  "(string \<times> string list) list \<Rightarrow> (string \<times> string) list \<Rightarrow> panic + (string \<times> string) list" where
  "initAliases_loop [] al = Inr al"
| "initAliases_loop ((gitkey, gitval) # entries) al =
     (if length gitval = 0
         \<or> \<not> (HasPrefix gitkey aliasPrefix \<and> HasSuffix gitkey ''.insteadof'')
      then initAliases_loop entries al
      else
        (case storeAlias al gitkey gitval ''.insteadof'' of
           Inl p \<Rightarrow> Inl p
         | Inr al' \<Rightarrow> initAliases_loop entries al'))"

definition initAliases :: "endpointGitFinder \<Rightarrow> Environment \<Rightarrow> panic + endpointGitFinder" where
  "initAliases e git =
     (case initAliases_loop (All' git) (aliases e) of
        Inl p \<Rightarrow> Inl p
      | Inr al \<Rightarrow> Inr (e\<lparr>aliases := al\<rparr>))"

definition NewEndpointFinder ::
  "pkgs \<Rightarrow> Configuration \<Rightarrow> Environment option \<Rightarrow> panic + endpointGitFinder" where
  \<comment> \<open>the arguments after \<open>X\<close> are \<open>ctx.GitConfig()\<close> and \<open>ctx.GitEnv()\<close>; calling \<open>Get\<close> on a
      \<open>nil\<close> environment panics\<close>
  "NewEndpointFinder X conf genv =
     (case genv of
        None \<Rightarrow> Inl NilDereference
      | Some env \<Rightarrow>
         initAliases
           \<lparr>gitConfig = conf, gitEnv = Some env,
            gitProtocol = (case Get env ''lfs.gitprotocol'' of Some v \<Rightarrow> v | None \<Rightarrow> ''https''),
            aliases = [], urlAccess = Map.empty, urlConfig = NewURLConfig X env,
            urlConfigGets = []\<rparr>
           env)"

subsection \<open>Scheme classification\<close>

definition endpointFromGitUrl :: "pkgs \<Rightarrow> URL \<Rightarrow> endpointGitFinder \<Rightarrow> Endpoint" where
  "endpointFromGitUrl X u e = Endpoint_zero\<lparr>Url := URL_String X (u\<lparr>Scheme := gitProtocol e\<rparr>)\<rparr>"

definition NewEndpoint :: "pkgs \<Rightarrow> endpointGitFinder \<Rightarrow> string \<Rightarrow> string \<Rightarrow> Endpoint" where
  "NewEndpoint X e operation rawurl0 =
     (let rawurl = ReplaceUrlAlias e rawurl0 in
      if HasPrefix rawurl ''/'' then EndpointFromLocalPath X rawurl
      else
        (case url_Parse X rawurl of
           Inl err \<Rightarrow> EndpointFromBareSshUrl X rawurl
         | Inr u \<Rightarrow>
            if Scheme u = ''ssh'' then EndpointFromSshUrl X u
            else if Scheme u = ''http'' \<or> Scheme u = ''https'' then EndpointFromHttpUrl X u
            else if Scheme u = ''git'' then endpointFromGitUrl X u e
            else if Scheme u = [] then EndpointFromBareSshUrl X (URL_String X u)
            else if HasPrefix rawurl (Scheme u @ ''::'') then Endpoint_zero\<lparr>Url := rawurl\<rparr>
            else EndpointFromBareSshUrl X (URL_String X u)))"

subsection \<open>Clone URLs\<close>

definition NewEndpointFromCloneURL ::
  "pkgs \<Rightarrow> endpointGitFinder \<Rightarrow> string \<Rightarrow> string \<Rightarrow> Endpoint" where
  "NewEndpointFromCloneURL X e operation rawurl =
     (let ep = NewEndpoint X e operation rawurl in
      if Url ep = UrlUnknown X then ep
      else
        (let ep1 = (if HasSuffix rawurl ''/''
                    then ep\<lparr>Url := take (length rawurl - 1) rawurl\<rparr> else ep)
         in if Ext (Url ep1) = ''.git''
            then ep1\<lparr>Url := Url ep1 @ ''/info/lfs''\<rparr>
            else ep1\<lparr>Url := Url ep1 @ ''.git/info/lfs''\<rparr>))"

subsection \<open>Resolution cascade\<close>

definition GitRemoteURL :: "pkgs \<Rightarrow> endpointGitFinder \<Rightarrow> string \<Rightarrow> bool \<Rightarrow> string" where
  "GitRemoteURL X e remote forpush =
     (let configured =
            (case gitEnv e of
               None \<Rightarrow> None
             | Some env \<Rightarrow>
                (case (if forpush then Get env (''remote.'' @ remote @ ''.pushurl'') else None) of
                   Some u \<Rightarrow> Some u
                 | None \<Rightarrow> Get env (''remote.'' @ remote @ ''.url'')))
      in case configured of
           Some u \<Rightarrow> u
         | None \<Rightarrow> if ValidateRemote X remote then remote else [])"

definition RemoteEndpoint :: "pkgs \<Rightarrow> endpointGitFinder \<Rightarrow> string \<Rightarrow> string \<Rightarrow> Endpoint" where
  "RemoteEndpoint X e operation remote0 =
     (case gitEnv e of
        None \<Rightarrow> Endpoint_zero
      | Some env \<Rightarrow>
         (let remote = (if length remote0 = 0 then defaultRemote else remote0) in
          case (if operation = ''upload'' then Get env (''remote.'' @ remote @ ''.lfspushurl'')
                else None) of
            Some u \<Rightarrow> NewEndpoint X e operation u
          | None \<Rightarrow>
             (case Get env (''remote.'' @ remote @ ''.lfsurl'') of
                Some u \<Rightarrow> NewEndpoint X e operation u
              | None \<Rightarrow>
                 (let u = GitRemoteURL X e remote (operation = ''upload'') in
                  if u \<noteq> [] then NewEndpointFromCloneURL X e operation u
                  else Endpoint_zero))))"

definition getEndpoint :: "pkgs \<Rightarrow> endpointGitFinder \<Rightarrow> string \<Rightarrow> string \<Rightarrow> Endpoint" where
  "getEndpoint X e operation remote =
     (case gitEnv e of
        None \<Rightarrow> Endpoint_zero
      | Some env \<Rightarrow>
         (case (if operation = ''upload'' then Get env ''lfs.pushurl'' else None) of
            Some u \<Rightarrow> NewEndpoint X e operation u
          | None \<Rightarrow>
             (case Get env ''lfs.url'' of
                Some u \<Rightarrow> NewEndpoint X e operation u
              | None \<Rightarrow>
                 if length remote > 0 \<and> remote \<noteq> defaultRemote
                    \<and> length (Url (RemoteEndpoint X e operation remote)) > 0
                 then RemoteEndpoint X e operation remote
                 else RemoteEndpoint X e operation defaultRemote)))"

definition Endpoint :: "pkgs \<Rightarrow> endpointGitFinder \<Rightarrow> string \<Rightarrow> string \<Rightarrow> Endpoint" where
  "Endpoint X e operation remote = (getEndpoint X e operation remote)\<lparr>Operation := operation\<rparr>"

subsection \<open>Access modes\<close>

definition urlWithoutAuth :: "pkgs \<Rightarrow> string \<Rightarrow> string" where
  \<comment> \<open>on a parse error the Go code also prints a diagnostic to standard error\<close>
  "urlWithoutAuth X rawurl =
     (if \<not> Contains rawurl ''@'' then rawurl
      else
        (case url_Parse X rawurl of
           Inl err \<Rightarrow> rawurl
         | Inr u \<Rightarrow> URL_String X (u\<lparr>User := None\<rparr>)))"

definition fetchGitAccess :: "endpointGitFinder \<Rightarrow> string \<Rightarrow> AccessMode \<times> endpointGitFinder" where
  \<comment> \<open>the access mode, and the finder with the call of \<open>urlConfig.Get\<close> recorded\<close>
  "fetchGitAccess e rawurl =
     (let v = fst (urlConfig e ''lfs'' rawurl ''access'');
          e' = e\<lparr>urlConfigGets := urlConfigGets e @ [(''lfs'', rawurl, ''access'')]\<rparr>
      in if length v > 0
         then (let access = ToLower v in
               if access = PrivateAccess then (BasicAccess, e') else (access, e'))
         else (NoneAccess, e'))"

definition urlAccess_at :: "(string \<rightharpoonup> AccessMode) \<Rightarrow> string \<Rightarrow> AccessMode" where
  \<comment> \<open>Go's \<open>m[k]\<close>: the zero value \<open>""\<close> for a key that is absent\<close>
  "urlAccess_at m k = (case m k of None \<Rightarrow> emptyAccess | Some v \<Rightarrow> v)"

definition AccessFor :: "pkgs \<Rightarrow> endpointGitFinder \<Rightarrow> string \<Rightarrow> Access \<times> endpointGitFinder" where
  "AccessFor X e rawurl =
     (let accessurl = urlWithoutAuth X rawurl in
      case gitEnv e of
        None \<Rightarrow> (\<lparr>mode = NoneAccess, url = accessurl\<rparr>, e)
      | Some env \<Rightarrow>
         (case urlAccess e accessurl of
            Some cached \<Rightarrow> (\<lparr>mode = cached, url = accessurl\<rparr>, e)
          | None \<Rightarrow>
             (let (fetched, e1) = fetchGitAccess e accessurl;
                  e2 = e1\<lparr>urlAccess := (urlAccess e1)(accessurl \<mapsto> fetched)\<rparr>
              in (\<lparr>mode = urlAccess_at (urlAccess e2) accessurl, url = accessurl\<rparr>, e2))))"

definition SetAccess :: "endpointGitFinder \<Rightarrow> Access \<Rightarrow> endpointGitFinder" where
  \<comment> \<open>the trace line that the Go code prints first is left out\<close>
  "SetAccess e access =
     (let key = ''lfs.'' @ url access @ ''.access'' in
      if mode access = emptyAccess \<or> mode access = NoneAccess
      then e\<lparr>gitConfig := UnsetLocalKey (gitConfig e) key,
             urlAccess := (urlAccess e)(url access \<mapsto> NoneAccess)\<rparr>
      else e\<lparr>gitConfig := SetLocal (gitConfig e) key (mode access),
             urlAccess := (urlAccess e)(url access \<mapsto> mode access)\<rparr>)"

definition GitProtocol :: "endpointGitFinder \<Rightarrow> string" where
  "GitProtocol e = gitProtocol e"

section \<open>Vocabulary of the specification\<close>

definition matching_aliases :: "endpointGitFinder \<Rightarrow> string \<Rightarrow> string set" where
  \<comment> \<open>the configured prefixes that are not empty and are literal prefixes of the URL\<close>
  "matching_aliases e rawurl = {p \<in> set (map fst (aliases e)). p \<noteq> [] \<and> HasPrefix rawurl p}"

definition named_modes :: "AccessMode set" where
  "named_modes =
     {NoneAccess, BasicAccess, PrivateAccess, NegotiateAccess, NTLMAccess, emptyAccess}"

text \<open>
  The resolution cascade in the words of the spec (section 4.4): a list of candidates, of
  which the first that is present wins.
\<close>

fun first_match :: "'a option list \<Rightarrow> 'a option" where
  "first_match [] = None"
| "first_match (Some x # cs) = Some x"
| "first_match (None # cs) = first_match cs"

definition remote_own_url :: "pkgs \<Rightarrow> Environment \<Rightarrow> string \<Rightarrow> bool \<Rightarrow> string option" where
  \<comment> \<open>the push URL when pushing and one is configured, else the fetch URL, else the name
      itself when the validator accepts it\<close>
  "remote_own_url X env name forpush =
     first_match
       [if forpush then Get env (''remote.'' @ name @ ''.pushurl'') else None,
        Get env (''remote.'' @ name @ ''.url''),
        if ValidateRemote X name then Some name else None]"

definition remote_scoped_chain ::
  "pkgs \<Rightarrow> endpointGitFinder \<Rightarrow> Environment \<Rightarrow> string \<Rightarrow> string \<Rightarrow> Endpoint option" where
  "remote_scoped_chain X e env operation name =
     first_match
       [if operation = ''upload''
        then map_option (NewEndpoint X e operation) (Get env (''remote.'' @ name @ ''.lfspushurl''))
        else None,
        map_option (NewEndpoint X e operation) (Get env (''remote.'' @ name @ ''.lfsurl'')),
        case remote_own_url X env name (operation = ''upload'') of
          None \<Rightarrow> None
        | Some u \<Rightarrow> if u = [] then None else Some (NewEndpointFromCloneURL X e operation u)]"

definition endpointFor_cascade ::
  "pkgs \<Rightarrow> endpointGitFinder \<Rightarrow> Environment \<Rightarrow> string \<Rightarrow> string \<Rightarrow> Endpoint option" where
  "endpointFor_cascade X e env operation remote =
     first_match
       [if operation = ''upload''
        then map_option (NewEndpoint X e operation) (Get env ''lfs.pushurl'') else None,
        map_option (NewEndpoint X e operation) (Get env ''lfs.url''),
        if remote = [] \<or> remote = ''origin'' then None
        else
          (case remote_scoped_chain X e env operation remote of
             None \<Rightarrow> None
           | Some ep \<Rightarrow> if Url ep = [] then None else Some ep),
        remote_scoped_chain X e env operation ''origin'']"

section \<open>An instance of the collaborators\<close>

text \<open>
  Modelled from the spec: the constructors of package \<open>lfshttp\<close>, \<open>git.ValidateRemote\<close> and
  \<open>config.NewURLConfig\<close> are not among the sources. This instance follows what the spec
  says of them: an HTTP endpoint is built "directly from the parsed URL"; an SSH endpoint
  "by decomposing user/host/port/path from the parsed URL"; a bare SSH target is the
  "host[:path] shorthand"; a local path is kept as it is; a remote is valid when it "is
  itself a literal URL"; the access mode is read from "a key scoped to
  \<open>lfs.<url>.access\<close>". It serves to run the finder on concrete inputs: what is proved
  below for every \<open>X\<close> holds for any other instance as well.
\<close>

definition model_EndpointFromSshUrl :: "URL \<Rightarrow> Endpoint" where
  "model_EndpointFromSshUrl u =
     Endpoint_zero
       \<lparr>Url := net_url_String u,
        SshUserAndHost :=
          (case User u of
             None \<Rightarrow> fst (Cut (Host u) (CHR '':''))
           | Some ui \<Rightarrow> username ui @ ''@'' @ fst (Cut (Host u) (CHR '':''))),
        SshPath := Path u,
        SshPort := fst (snd (Cut (Host u) (CHR '':'')))\<rparr>"

definition model_EndpointFromBareSshUrl :: "string \<Rightarrow> Endpoint" where
  "model_EndpointFromBareSshUrl rawurl =
     Endpoint_zero
       \<lparr>Url := rawurl,
        SshUserAndHost := fst (Cut rawurl (CHR '':'')),
        SshPath := fst (snd (Cut rawurl (CHR '':'')))\<rparr>"

definition model_NewURLConfig :: "Environment \<Rightarrow> string \<Rightarrow> string \<Rightarrow> string \<Rightarrow> string \<times> bool" where
  "model_NewURLConfig env sect rawurl key =
     (case Get env (sect @ ''.'' @ rawurl @ ''.'' @ key) of
        None \<Rightarrow> ([], False)
      | Some v \<Rightarrow> (v, True))"

definition model_pkgs :: pkgs where
  "model_pkgs =
     \<lparr>url_Parse = net_url_Parse,
      URL_String = net_url_String,
      EndpointFromSshUrl = model_EndpointFromSshUrl,
      EndpointFromHttpUrl = (\<lambda>u. Endpoint_zero\<lparr>Url := net_url_String u\<rparr>),
      EndpointFromBareSshUrl = model_EndpointFromBareSshUrl,
      EndpointFromLocalPath = (\<lambda>p. Endpoint_zero\<lparr>Url := p\<rparr>),
      UrlUnknown = ''<unknown>'',
      ValidateRemote = (\<lambda>remote. Contains remote ''://''),
      NewURLConfig = model_NewURLConfig\<rparr>"

definition EnvironmentOf :: "(string \<times> string) list \<Rightarrow> Environment" where
  \<comment> \<open>an environment holding one value for each key of the list\<close>
  "EnvironmentOf kvs = \<lparr>Get = map_of kvs, All' = map (\<lambda>(k, v). (k, [v])) kvs\<rparr>"

definition finder_of :: "(string \<times> string) list \<Rightarrow> (string \<times> string) list \<Rightarrow> endpointGitFinder" where
  \<comment> \<open>the finder over the environment \<open>kvs\<close> with the alias table \<open>al\<close>, protocol \<open>https\<close>, an
      empty local configuration and an empty cache\<close>
  "finder_of kvs al =
     \<lparr>gitConfig = Map.empty, gitEnv = Some (EnvironmentOf kvs), gitProtocol = ''https'',
      aliases = al, urlAccess = Map.empty,
      urlConfig = model_NewURLConfig (EnvironmentOf kvs), urlConfigGets = []\<rparr>"

section \<open>Properties of alias resolution\<close>

lemma HasPrefix_Nil: "HasPrefix s []"
  by (simp add: HasPrefix_def)

lemma HasPrefix_same_length:
  "HasPrefix s p \<Longrightarrow> HasPrefix s q \<Longrightarrow> length p = length q \<Longrightarrow> p = q"
  by (metis HasPrefix_def)

lemma take_less_take:
  fixes s :: "'a::linorder list"
  assumes "n < m" "m \<le> length s"
  shows "take n s < take m s"
proof -
  have "take m s = take n s @ drop n (take m s)"
    using assms by (metis append_take_drop_id min.absorb2 less_imp_le take_take min.commute)
  moreover have "drop n (take m s) \<noteq> []" using assms by simp
  ultimately show ?thesis
    by (metis list_less_def lexord_append_rightI neq_Nil_conv)
qed

text \<open>
  Two prefixes of one string: the byte order that the loop compares with is the order of
  their lengths.
\<close>

lemma prefixes_less_iff:
  assumes "HasPrefix s p" "HasPrefix s q"
  shows "p < q \<longleftrightarrow> length p < length q"
proof
  assume "length p < length q"
  then show "p < q"
    using take_less_take[of "length p" "length q" s] assms by (simp add: HasPrefix_def)
next
  assume pq: "p < q"
  show "length p < length q"
  proof (rule ccontr)
    assume "\<not> length p < length q"
    then consider "length q < length p" | "length q = length p" by linarith
    then show False
    proof cases
      case 1
      then have "q < p"
        using take_less_take[of "length q" "length p" s] assms by (simp add: HasPrefix_def)
      with pq show False by simp
    next
      case 2
      then have "p = q" using assms HasPrefix_same_length by metis
      with pq show False by simp
    qed
  qed
qed

lemma longestalias_loop_result:
  assumes "HasPrefix rawurl acc"
  shows "HasPrefix rawurl (longestalias_loop rawurl ks acc)
       \<and> (longestalias_loop rawurl ks acc = acc \<or> longestalias_loop rawurl ks acc \<in> set ks)
       \<and> length acc \<le> length (longestalias_loop rawurl ks acc)
       \<and> (\<forall>k\<in>set ks. HasPrefix rawurl k \<longrightarrow> length k \<le> length (longestalias_loop rawurl ks acc))"
  using assms
proof (induction ks arbitrary: acc)
  case Nil
  then show ?case by simp
next
  case (Cons k ks)
  show ?case
  proof (cases "HasPrefix rawurl k")
    case False
    then show ?thesis using Cons.IH[OF Cons.prems] by auto
  next
    case True
    show ?thesis
    proof (cases "acc < k")
      case lt: True
      then have "length acc < length k" using prefixes_less_iff[OF Cons.prems True] by simp
      then show ?thesis using Cons.IH[OF True] True lt by auto
    next
      case ge: False
      then have "length k \<le> length acc" using prefixes_less_iff[OF Cons.prems True] by simp
      then show ?thesis using Cons.IH[OF Cons.prems] True ge by auto
    qed
  qed
qed

lemma longest_alias_facts:
  fixes e rawurl
  defines "r \<equiv> longestalias_loop rawurl (map fst (aliases e)) []"
  shows "HasPrefix rawurl r"
    and "r \<noteq> [] \<Longrightarrow> r \<in> matching_aliases e rawurl"
    and "q \<in> matching_aliases e rawurl \<Longrightarrow> length q \<le> length r"
proof -
  note res = longestalias_loop_result[OF HasPrefix_Nil, of rawurl "map fst (aliases e)", folded r_def]
  show hp: "HasPrefix rawurl r" using res by simp
  show "r \<in> matching_aliases e rawurl" if "r \<noteq> []"
    using res that hp by (auto simp: matching_aliases_def)
  show "length q \<le> length r" if "q \<in> matching_aliases e rawurl"
    using res that by (auto simp: matching_aliases_def)
qed

text \<open>
  Claim C1, as amended. Among the configured prefixes that are not empty and are literal
  prefixes of the URL, \<open>ReplaceUrlAlias\<close> selects the one of greatest length (a tie going
  to the greater string) and returns its replacement followed by the rest of the URL after
  the prefix; when there is none, it returns the URL as it is. Whenever some non-empty
  prefix matches, a greatest one exists. The order in which the table is visited does not
  matter: \<open>aliases e\<close> is any list.
\<close>

theorem ReplaceUrlAlias_longest_nonempty_prefix:
  "(matching_aliases e rawurl = {} \<longrightarrow> ReplaceUrlAlias e rawurl = rawurl)
   \<and> (\<forall>p\<in>matching_aliases e rawurl.
        (\<forall>q\<in>matching_aliases e rawurl. length q < length p \<or> (length q = length p \<and> q \<le> p))
        \<longrightarrow> ReplaceUrlAlias e rawurl = alias_at (aliases e) p @ drop (length p) rawurl)
   \<and> (matching_aliases e rawurl \<noteq> {} \<longrightarrow>
        (\<exists>p\<in>matching_aliases e rawurl.
           \<forall>q\<in>matching_aliases e rawurl. length q < length p \<or> (length q = length p \<and> q \<le> p)))"
proof -
  define r where "r = longestalias_loop rawurl (map fst (aliases e)) []"
  note facts = longest_alias_facts[where rawurl=rawurl and e=e, folded r_def]
  have R: "ReplaceUrlAlias e rawurl =
             (if r \<noteq> [] then alias_at (aliases e) r @ drop (length r) rawurl else rawurl)"
    by (simp add: ReplaceUrlAlias_def r_def Let_def)
  have none: "ReplaceUrlAlias e rawurl = rawurl" if "matching_aliases e rawurl = {}"
  proof -
    have "r = []" using facts(2) that by auto
    then show ?thesis using R by simp
  qed
  have eq_r: "p = r"
    if p: "p \<in> matching_aliases e rawurl"
    and mx: "\<forall>q\<in>matching_aliases e rawurl. length q < length p \<or> (length q = length p \<and> q \<le> p)"
    for p
  proof -
    have "length p \<le> length r" using facts(3)[OF p] .
    moreover have pne: "p \<noteq> []" and pp: "HasPrefix rawurl p"
      using p by (auto simp: matching_aliases_def)
    ultimately have "r \<noteq> []" by auto
    then have "r \<in> matching_aliases e rawurl" using facts(2) by simp
    then have "length r \<le> length p" using mx by auto
    with \<open>length p \<le> length r\<close> have "length p = length r" by simp
    then show ?thesis using HasPrefix_same_length[OF pp facts(1)] by simp
  qed
  have some: "\<exists>p\<in>matching_aliases e rawurl.
           \<forall>q\<in>matching_aliases e rawurl. length q < length p \<or> (length q = length p \<and> q \<le> p)"
    if ne: "matching_aliases e rawurl \<noteq> {}"
  proof -
    from ne obtain q0 where q0: "q0 \<in> matching_aliases e rawurl" by auto
    then have "q0 \<noteq> []" by (simp add: matching_aliases_def)
    with facts(3)[OF q0] have "r \<noteq> []" by auto
    then have rin: "r \<in> matching_aliases e rawurl" using facts(2) by simp
    have "length q < length r \<or> (length q = length r \<and> q \<le> r)"
      if q: "q \<in> matching_aliases e rawurl" for q
    proof (cases "length q = length r")
      case True
      have "HasPrefix rawurl q" using q by (simp add: matching_aliases_def)
      then have "q = r" using HasPrefix_same_length[OF _ facts(1) True] by simp
      then show ?thesis by simp
    next
      case False
      then show ?thesis using facts(3)[OF q] by simp
    qed
    then show ?thesis using rin by blast
  qed
  show ?thesis
  proof (intro conjI impI ballI)
    show "ReplaceUrlAlias e rawurl = rawurl" if "matching_aliases e rawurl = {}"
      using none that .
  next
    fix p
    assume p: "p \<in> matching_aliases e rawurl"
      and mx: "\<forall>q\<in>matching_aliases e rawurl. length q < length p \<or> (length q = length p \<and> q \<le> p)"
    have "p = r" using eq_r[OF p mx] .
    moreover have "r \<noteq> []" using p \<open>p = r\<close> by (auto simp: matching_aliases_def)
    ultimately show "ReplaceUrlAlias e rawurl = alias_at (aliases e) p @ drop (length p) rawurl"
      using R by simp
  next
    show "\<exists>p\<in>matching_aliases e rawurl.
           \<forall>q\<in>matching_aliases e rawurl. length q < length p \<or> (length q = length p \<and> q \<le> p)"
      if "matching_aliases e rawurl \<noteq> {}"
      using some that .
  qed
qed

text \<open>
  With the prefixes \<open>gh:\<close>, \<open>gh:org\<close>, the empty prefix and \<open>gl:\<close> configured, the URL
  \<open>gh:org/repo\<close> is rewritten by the longer of the two that match.
\<close>

theorem ReplaceUrlAlias_longest_nonempty_prefix_witness:
  "''gh:org'' \<in> matching_aliases
      (finder_of [] [(''gh:'', ''https://github.com/''), (''gh:org'', ''ssh://x/''), ([], ''zz''),
                     (''gl:'', ''https://gitlab.com/'')]) ''gh:org/repo''
   \<and> ReplaceUrlAlias
      (finder_of [] [(''gh:'', ''https://github.com/''), (''gh:org'', ''ssh://x/''), ([], ''zz''),
                     (''gl:'', ''https://gitlab.com/'')]) ''gh:org/repo'' = ''ssh://x//repo''"
proof -
  let ?e = "finder_of [] [(''gh:'', ''https://github.com/''), (''gh:org'', ''ssh://x/''), ([], ''zz''),
                     (''gl:'', ''https://gitlab.com/'')]"
  have M: "matching_aliases ?e ''gh:org/repo'' = {''gh:'', ''gh:org''}"
    by (auto simp: matching_aliases_def finder_of_def HasPrefix_def)
  have mx: "\<forall>q\<in>matching_aliases ?e ''gh:org/repo''.
              length q < length ''gh:org'' \<or> (length q = length ''gh:org'' \<and> q \<le> ''gh:org'')"
    unfolding M by simp
  have al: "alias_at (aliases ?e) ''gh:org'' @ drop (length ''gh:org'') ''gh:org/repo''
              = ''ssh://x//repo''"
    by (simp add: alias_at_def finder_of_def)
  have p: "''gh:org'' \<in> matching_aliases ?e ''gh:org/repo''" unfolding M by simp
  from ReplaceUrlAlias_longest_nonempty_prefix[of ?e "''gh:org/repo''"] p mx al
  show ?thesis by metis
qed

text \<open>
  The claim as written, for every alias table, fails where the empty prefix is configured
  (\<open>url.https://x/.insteadof\<close> set to the empty string, from which the constructor builds
  this table): the empty prefix is a literal prefix of \<open>abc\<close> and the only candidate, its
  replacement followed by the rest would be \<open>https://x/abc\<close>, and \<open>ReplaceUrlAlias\<close>
  returns \<open>abc\<close>, because it rewrites only when the prefix it found is not empty.
\<close>

theorem ReplaceUrlAlias_empty_prefix_counterexample:
  "NewEndpointFinder model_pkgs Map.empty
       (Some (EnvironmentOf [(''url.https://x/.insteadof'', [])]))
     = Inr (finder_of [(''url.https://x/.insteadof'', [])] [([], ''https://x/'')])
   \<and> [] \<in> set (map fst (aliases (finder_of [(''url.https://x/.insteadof'', [])] [([], ''https://x/'')])))
   \<and> HasPrefix ''abc'' []
   \<and> alias_at (aliases (finder_of [(''url.https://x/.insteadof'', [])] [([], ''https://x/'')])) []
         @ drop (length ([]::string)) ''abc'' = ''https://x/abc''
   \<and> ReplaceUrlAlias (finder_of [(''url.https://x/.insteadof'', [])] [([], ''https://x/'')]) ''abc''
       = ''abc''"
  by (simp add: NewEndpointFinder_def EnvironmentOf_def initAliases_def finder_of_def
      HasPrefix_def HasSuffix_def aliasPrefix_def storeAlias_def model_pkgs_def alias_at_def
      ReplaceUrlAlias_def)

section \<open>Properties of scheme classification\<close>

lemma ReplaceUrlAlias_no_aliases: "aliases e = [] \<Longrightarrow> ReplaceUrlAlias e rawurl = rawurl"
  by (simp add: ReplaceUrlAlias_def)

lemma initAliases_keeps_gitProtocol: "initAliases e git = Inr e' \<Longrightarrow> gitProtocol e' = gitProtocol e"
  by (auto simp: initAliases_def split: sum.splits)

lemma NewEndpointFinder_gitProtocol:
  assumes "NewEndpointFinder X conf (Some env) = Inr e'"
  shows "gitProtocol e' = (case Get env ''lfs.gitprotocol'' of None \<Rightarrow> ''https'' | Some v \<Rightarrow> v)"
  using initAliases_keeps_gitProtocol[OF assms[unfolded NewEndpointFinder_def option.case]]
  by simp

lemma model_pkgs_sel:
  "url_Parse model_pkgs = net_url_Parse"
  "URL_String model_pkgs = net_url_String"
  "EndpointFromSshUrl model_pkgs = model_EndpointFromSshUrl"
  "EndpointFromHttpUrl model_pkgs u = Endpoint_zero\<lparr>Url := net_url_String u\<rparr>"
  "EndpointFromBareSshUrl model_pkgs = model_EndpointFromBareSshUrl"
  "EndpointFromLocalPath model_pkgs p = Endpoint_zero\<lparr>Url := p\<rparr>"
  "UrlUnknown model_pkgs = ''<unknown>''"
  "ValidateRemote model_pkgs remote = Contains remote ''://''"
  "NewURLConfig model_pkgs = model_NewURLConfig"
  by (simp_all add: model_pkgs_def)

text \<open>What \<open>net/url\<close> makes of the five URLs of the classification table.\<close>

lemma Parse_https: "net_url_Parse ''https://h/r.git''
    = Inr (URL_zero\<lparr>Scheme := ''https'', Host := ''h'', Path := ''/r.git''\<rparr>)"
  by code_simp

lemma Parse_user_at_host: "net_url_Parse ''git@h:r.git''
    = Inl ''first path segment in URL cannot contain colon''"
  by code_simp

lemma Parse_git: "net_url_Parse ''git://h/r''
    = Inr (URL_zero\<lparr>Scheme := ''git'', Host := ''h'', Path := ''/r''\<rparr>)"
  by code_simp

lemma Parse_host_path: "net_url_Parse ''h:r.git''
    = Inr (URL_zero\<lparr>Scheme := ''h'', Opaque := ''r.git''\<rparr>)"
  by code_simp

lemma Parse_helper: "net_url_Parse ''myhelper::h/r''
    = Inr (URL_zero\<lparr>Scheme := ''myhelper'', Opaque := '':h/r''\<rparr>)"
  by code_simp

lemma String_https:
  "net_url_String (URL_zero\<lparr>Scheme := ''https'', Host := ''h'', Path := ''/r.git''\<rparr>)
     = ''https://h/r.git''"
  by code_simp

lemma String_rewritten_scheme:
  "net_url_String (URL_zero\<lparr>Scheme := p, Host := ''h'', Path := ''/r''\<rparr>)
     = (if p = [] then ''//h/r'' else p @ ''://h/r'')"
  by (simp add: net_url_String_def URL_zero_def HasPrefix_def)

lemma String_host_path:
  "net_url_String (URL_zero\<lparr>Scheme := ''h'', Opaque := ''r.git''\<rparr>) = ''h:r.git''"
  by code_simp

text \<open>
  Claim C4. With Go's URL parser and an empty alias table, \<open>NewEndpoint\<close> classifies the
  five URLs of the table: \<open>https://h/r.git\<close> goes to the HTTP constructor as a parsed URL
  that is written back unchanged; \<open>git@h:r.git\<close> does not parse and goes to the bare-SSH
  constructor; \<open>git://h/r\<close> becomes \<open>https://h/r\<close> under the protocol \<open>https\<close>, and
  \<open>p://h/r\<close> under any protocol \<open>p\<close>; \<open>h:r.git\<close> goes to the bare-SSH constructor;
  \<open>myhelper::h/r\<close> is passed through as the URL of an otherwise empty endpoint. The
  protocol of a finder that \<open>NewEndpointFinder\<close> built is \<open>https\<close> unless \<open>lfs.gitprotocol\<close>
  is set, and then its value.
\<close>

theorem NewEndpoint_classification_table:
  assumes "url_Parse X = net_url_Parse" and "URL_String X = net_url_String"
    and "aliases e = []"
  shows "NewEndpoint X e operation ''https://h/r.git''
           = EndpointFromHttpUrl X (URL_zero\<lparr>Scheme := ''https'', Host := ''h'', Path := ''/r.git''\<rparr>)
       \<and> URL_String X (URL_zero\<lparr>Scheme := ''https'', Host := ''h'', Path := ''/r.git''\<rparr>)
           = ''https://h/r.git''
       \<and> NewEndpoint X e operation ''git@h:r.git'' = EndpointFromBareSshUrl X ''git@h:r.git''
       \<and> (gitProtocol e = ''https'' \<longrightarrow>
            NewEndpoint X e operation ''git://h/r'' = Endpoint_zero\<lparr>Url := ''https://h/r''\<rparr>)
       \<and> (gitProtocol e \<noteq> [] \<longrightarrow>
            NewEndpoint X e operation ''git://h/r''
              = Endpoint_zero\<lparr>Url := gitProtocol e @ ''://h/r''\<rparr>)
       \<and> NewEndpoint X e operation ''h:r.git'' = EndpointFromBareSshUrl X ''h:r.git''
       \<and> NewEndpoint X e operation ''myhelper::h/r'' = Endpoint_zero\<lparr>Url := ''myhelper::h/r''\<rparr>
       \<and> (\<forall>conf env e'. NewEndpointFinder X conf (Some env) = Inr e' \<longrightarrow>
            gitProtocol e'
              = (case Get env ''lfs.gitprotocol'' of None \<Rightarrow> ''https'' | Some v \<Rightarrow> v))"
proof -
  note ra = ReplaceUrlAlias_no_aliases[OF assms(3)]
  have c1: "NewEndpoint X e operation ''https://h/r.git''
           = EndpointFromHttpUrl X (URL_zero\<lparr>Scheme := ''https'', Host := ''h'', Path := ''/r.git''\<rparr>)"
    by (simp add: NewEndpoint_def ra assms(1) Parse_https HasPrefix_def URL_zero_def)
  have c1': "URL_String X (URL_zero\<lparr>Scheme := ''https'', Host := ''h'', Path := ''/r.git''\<rparr>)
           = ''https://h/r.git''"
    by (simp add: assms(2) String_https)
  have c2: "NewEndpoint X e operation ''git@h:r.git'' = EndpointFromBareSshUrl X ''git@h:r.git''"
    by (simp add: NewEndpoint_def ra assms(1) Parse_user_at_host HasPrefix_def)
  have c3: "NewEndpoint X e operation ''git://h/r''
      = Endpoint_zero\<lparr>Url := (if gitProtocol e = [] then ''//h/r'' else gitProtocol e @ ''://h/r'')\<rparr>"
    using String_rewritten_scheme[of "gitProtocol e"]
    by (simp add: NewEndpoint_def ra assms(1,2) Parse_git HasPrefix_def endpointFromGitUrl_def
        URL_zero_def)
  have c4: "NewEndpoint X e operation ''h:r.git'' = EndpointFromBareSshUrl X ''h:r.git''"
    using String_host_path
    by (simp add: NewEndpoint_def ra assms(1,2) Parse_host_path HasPrefix_def URL_zero_def)
  have c5: "NewEndpoint X e operation ''myhelper::h/r'' = Endpoint_zero\<lparr>Url := ''myhelper::h/r''\<rparr>"
    by (simp add: NewEndpoint_def ra assms(1) Parse_helper HasPrefix_def URL_zero_def)
  show ?thesis using c1 c1' c2 c3 c4 c5 NewEndpointFinder_gitProtocol by simp
qed

text \<open>
  The table on the instance of the collaborators, for a finder over an empty environment;
  and the protocol of a finder built over \<open>lfs.gitprotocol = http\<close>.
\<close>

theorem NewEndpoint_classification_table_witness:
  "Url (NewEndpoint model_pkgs (finder_of [] []) ''download'' ''https://h/r.git'') = ''https://h/r.git''
   \<and> NewEndpoint model_pkgs (finder_of [] []) ''download'' ''git@h:r.git''
       = model_EndpointFromBareSshUrl ''git@h:r.git''
   \<and> Url (NewEndpoint model_pkgs (finder_of [] []) ''download'' ''git://h/r'') = ''https://h/r''
   \<and> NewEndpoint model_pkgs (finder_of [] []) ''download'' ''h:r.git''
       = model_EndpointFromBareSshUrl ''h:r.git''
   \<and> Url (NewEndpoint model_pkgs (finder_of [] []) ''download'' ''myhelper::h/r'') = ''myhelper::h/r''
   \<and> map_sum id gitProtocol
        (NewEndpointFinder model_pkgs Map.empty (Some (EnvironmentOf [(''lfs.gitprotocol'', ''http'')])))
       = Inr ''http''"
proof -
  note h1 = model_pkgs_sel(1) and h2 = model_pkgs_sel(2)
  have h3: "aliases (finder_of [] []) = []" and h4: "gitProtocol (finder_of [] []) = ''https''"
    by (simp_all add: finder_of_def)
  have fin: "NewEndpointFinder model_pkgs Map.empty (Some (EnvironmentOf [(''lfs.gitprotocol'', ''http'')]))
      = Inr (finder_of [(''lfs.gitprotocol'', ''http'')] []\<lparr>gitProtocol := ''http''\<rparr>)"
    by (simp add: NewEndpointFinder_def EnvironmentOf_def initAliases_def finder_of_def
        HasPrefix_def aliasPrefix_def model_pkgs_sel)
  from NewEndpoint_classification_table[OF h1 h2 h3, of "''download''"] h4 fin
  show ?thesis
    by (simp add: model_pkgs_sel Endpoint_zero_def EnvironmentOf_def)
qed

text \<open>
  Claim C5. \<open>NewEndpoint\<close> is a total function into endpoints: it has no error result.
  For a URL that, after alias replacement, does not start with a slash: when \<open>url.Parse\<close>
  fails, the result is the bare-SSH endpoint of that URL; when it succeeds with a scheme
  other than \<open>ssh\<close>, \<open>http\<close>, \<open>https\<close> and \<open>git\<close>, the result is the URL itself, unmodified,
  in an otherwise empty endpoint if the scheme is not empty and the URL starts with the
  scheme followed by two colons, and else the bare-SSH endpoint of the parsed URL written
  back. This holds whatever the parser and the constructors are.
\<close>

theorem NewEndpoint_degrades_to_bare_ssh:
  "\<not> HasPrefix (ReplaceUrlAlias e rawurl) ''/'' \<longrightarrow>
     (\<forall>err. url_Parse X (ReplaceUrlAlias e rawurl) = Inl err \<longrightarrow>
        NewEndpoint X e operation rawurl = EndpointFromBareSshUrl X (ReplaceUrlAlias e rawurl))
     \<and> (\<forall>u. url_Parse X (ReplaceUrlAlias e rawurl) = Inr u
              \<and> Scheme u \<notin> {''ssh'', ''http'', ''https'', ''git''} \<longrightarrow>
          NewEndpoint X e operation rawurl =
            (if Scheme u \<noteq> [] \<and> HasPrefix (ReplaceUrlAlias e rawurl) (Scheme u @ ''::'')
             then Endpoint_zero\<lparr>Url := ReplaceUrlAlias e rawurl\<rparr>
             else EndpointFromBareSshUrl X (URL_String X u)))"
  by (simp add: NewEndpoint_def Let_def)

text \<open>
  A URL that does not parse (\<open>a b@h:r\<close> holds a colon in its first segment), one whose
  scheme, \<open>example.com\<close>, is a host name, and a remote helper.
\<close>

theorem NewEndpoint_degrades_to_bare_ssh_witness:
  "NewEndpoint model_pkgs (finder_of [] []) ''upload'' ''a b@h:r''
     = model_EndpointFromBareSshUrl ''a b@h:r''
   \<and> NewEndpoint model_pkgs (finder_of [] []) ''upload'' ''example.com:repo.git''
     = model_EndpointFromBareSshUrl ''example.com:repo.git''
   \<and> NewEndpoint model_pkgs (finder_of [] []) ''upload'' ''helper::x''
     = Endpoint_zero\<lparr>Url := ''helper::x''\<rparr>"
proof -
  let ?e = "finder_of [] []"
  have ra: "ReplaceUrlAlias ?e s = s" for s
    by (simp add: ReplaceUrlAlias_no_aliases finder_of_def)
  have p1: "url_Parse model_pkgs ''a b@h:r'' = Inl ''first path segment in URL cannot contain colon''"
    unfolding model_pkgs_sel by code_simp
  have p2: "url_Parse model_pkgs ''example.com:repo.git''
      = Inr (URL_zero\<lparr>Scheme := ''example.com'', Opaque := ''repo.git''\<rparr>)"
    unfolding model_pkgs_sel by code_simp
  have p3: "url_Parse model_pkgs ''helper::x''
      = Inr (URL_zero\<lparr>Scheme := ''helper'', Opaque := '':x''\<rparr>)"
    unfolding model_pkgs_sel by code_simp
  have s2: "URL_String model_pkgs (URL_zero\<lparr>Scheme := ''example.com'', Opaque := ''repo.git''\<rparr>)
      = ''example.com:repo.git''"
    unfolding model_pkgs_sel by code_simp
  note e = model_pkgs_sel(5)
  have a: "NewEndpoint model_pkgs ?e ''upload'' ''a b@h:r'' = model_EndpointFromBareSshUrl ''a b@h:r''"
    using NewEndpoint_degrades_to_bare_ssh[of ?e "''a b@h:r''" model_pkgs "''upload''"] p1
    by (simp add: ra HasPrefix_def e)
  have b: "NewEndpoint model_pkgs ?e ''upload'' ''example.com:repo.git''
      = model_EndpointFromBareSshUrl ''example.com:repo.git''"
    using NewEndpoint_degrades_to_bare_ssh[of ?e "''example.com:repo.git''" model_pkgs "''upload''"]
      p2 s2
    by (simp add: ra HasPrefix_def e URL_zero_def)
  have c: "NewEndpoint model_pkgs ?e ''upload'' ''helper::x'' = Endpoint_zero\<lparr>Url := ''helper::x''\<rparr>"
    using NewEndpoint_degrades_to_bare_ssh[of ?e "''helper::x''" model_pkgs "''upload''"] p3
    by (simp add: ra HasPrefix_def URL_zero_def)
  show ?thesis using a b c by simp
qed

section \<open>Properties of the clone-URL adapter\<close>

text \<open>
  Claim C2 (the code departs from it). What \<open>NewEndpointFromCloneURL\<close> does when the
  endpoint is not the unknown one: the trailing slash is looked for on the raw URL, not on
  the resolved one, and when the raw URL ends with a slash the endpoint's URL is replaced
  by the raw URL without it, so that what alias replacement and scheme classification
  produced is lost; only a raw URL without a trailing slash keeps the resolved URL, which
  is then not stripped.
\<close>

theorem NewEndpointFromCloneURL_strips_raw_url:
  assumes "Url (NewEndpoint X e operation rawurl) \<noteq> UrlUnknown X"
  shows "(HasSuffix rawurl ''/'' \<longrightarrow>
            Url (NewEndpointFromCloneURL X e operation rawurl)
              = (if Ext (take (length rawurl - 1) rawurl) = ''.git''
                 then take (length rawurl - 1) rawurl @ ''/info/lfs''
                 else take (length rawurl - 1) rawurl @ ''.git/info/lfs''))
       \<and> (\<not> HasSuffix rawurl ''/'' \<longrightarrow>
            Url (NewEndpointFromCloneURL X e operation rawurl)
              = (if Ext (Url (NewEndpoint X e operation rawurl)) = ''.git''
                 then Url (NewEndpoint X e operation rawurl) @ ''/info/lfs''
                 else Url (NewEndpoint X e operation rawurl) @ ''.git/info/lfs''))"
  using assms by (simp add: NewEndpointFromCloneURL_def Let_def)

text \<open>
  The failing input \<open>git://h/r/\<close>, with protocol \<open>https\<close> and no alias: the resolved URL is
  \<open>https://h/r/\<close>, for which the claim gives \<open>https://h/r.git/info/lfs\<close>; the code returns
  \<open>git://h/r.git/info/lfs\<close>.
\<close>

theorem NewEndpointFromCloneURL_strips_raw_url_witness:
  "Url (NewEndpoint model_pkgs (finder_of [] []) ''download'' ''git://h/r/'') = ''https://h/r/''
   \<and> HasSuffix ''git://h/r/'' ''/''
   \<and> Url (NewEndpointFromCloneURL model_pkgs (finder_of [] []) ''download'' ''git://h/r/'')
       = ''git://h/r.git/info/lfs''"
proof -
  let ?e = "finder_of [] []"
  have p: "net_url_Parse ''git://h/r/''
      = Inr (URL_zero\<lparr>Scheme := ''git'', Host := ''h'', Path := ''/r/''\<rparr>)"
    by code_simp
  have s: "net_url_String (URL_zero\<lparr>Scheme := ''https'', Host := ''h'', Path := ''/r/''\<rparr>)
      = ''https://h/r/''"
    by code_simp
  have r: "Url (NewEndpoint model_pkgs ?e ''download'' ''git://h/r/'') = ''https://h/r/''"
    using s
    by (simp add: NewEndpoint_def ReplaceUrlAlias_no_aliases finder_of_def model_pkgs_sel p
        HasPrefix_def endpointFromGitUrl_def URL_zero_def)
  have u: "Url (NewEndpoint model_pkgs ?e ''download'' ''git://h/r/'') \<noteq> UrlUnknown model_pkgs"
    by (simp add: r model_pkgs_sel)
  have x: "Ext (take (length ''git://h/r/'' - 1) ''git://h/r/'') = []"
    by (simp add: Ext_def)
  have sl: "HasSuffix ''git://h/r/'' ''/''"
    by (simp add: HasSuffix_def)
  from NewEndpointFromCloneURL_strips_raw_url[OF u] sl x r
  show ?thesis by simp
qed

section \<open>Properties of the resolution cascade\<close>

lemma GitRemoteURL_remote_own_url:
  assumes "gitEnv e = Some env"
  shows "GitRemoteURL X e name forpush
           = (case remote_own_url X env name forpush of None \<Rightarrow> [] | Some u \<Rightarrow> u)"
  using assms
  by (simp add: GitRemoteURL_def remote_own_url_def split: option.splits)

lemma RemoteEndpoint_chain:
  assumes "gitEnv e = Some env" and "name \<noteq> []"
  shows "RemoteEndpoint X e operation name
           = (case remote_scoped_chain X e env operation name of
                None \<Rightarrow> Endpoint_zero
              | Some ep \<Rightarrow> ep)"
proof -
  have own: "GitRemoteURL X e name forpush
           = (case remote_own_url X env name forpush of None \<Rightarrow> [] | Some u \<Rightarrow> u)" for forpush
    using GitRemoteURL_remote_own_url[OF assms(1)] .
  show ?thesis
    using assms
    by (simp add: RemoteEndpoint_def remote_scoped_chain_def own Let_def split: option.splits)
qed

text \<open>
  Claim C3. For a finder with a configuration source, \<open>Endpoint\<close> returns, tagged with the
  operation, the first candidate of the cascade that is present: for upload the global
  \<open>lfs.pushurl\<close>; the global \<open>lfs.url\<close>; for a remote that is neither empty nor \<open>origin\<close>
  the remote-scoped chain, if it gives an endpoint with a non-empty URL; the remote-scoped
  chain of \<open>origin\<close>; and the empty endpoint when there is none. The remote-scoped chain
  is \<open>remote.<name>.lfspushurl\<close> for upload, then \<open>remote.<name>.lfsurl\<close>, then the
  remote's own URL (its push URL when uploading and one is set, else its fetch URL, else
  the name itself when it is a valid remote) through \<open>NewEndpointFromCloneURL\<close>. In
  particular, with \<open>lfs.url\<close> unset and \<open>remote.origin.lfsurl\<close> set, a download from
  \<open>origin\<close> resolves the value of \<open>remote.origin.lfsurl\<close>, whatever the remote's own URL.
\<close>

theorem Endpoint_resolution_cascade:
  assumes "gitEnv e = Some env"
  shows "Endpoint X e operation remote
           = (case endpointFor_cascade X e env operation remote of
                None \<Rightarrow> Endpoint_zero
              | Some ep \<Rightarrow> ep)\<lparr>Operation := operation\<rparr>
       \<and> (Get env ''lfs.url'' = None \<and> Get env ''remote.origin.lfsurl'' = Some v \<longrightarrow>
            Endpoint X e ''download'' ''origin''
              = (NewEndpoint X e ''download'' v)\<lparr>Operation := ''download''\<rparr>)"
proof -
  have origin: "RemoteEndpoint X e op ''origin''
      = (case remote_scoped_chain X e env op ''origin'' of None \<Rightarrow> Endpoint_zero | Some ep \<Rightarrow> ep)"
    for op
    using RemoteEndpoint_chain[OF assms, of "''origin''"] by simp
  have named: "RemoteEndpoint X e op remote
      = (case remote_scoped_chain X e env op remote of None \<Rightarrow> Endpoint_zero | Some ep \<Rightarrow> ep)"
    if "remote \<noteq> []" for op
    using RemoteEndpoint_chain[OF assms that] .
  have zero: "Url Endpoint_zero = []"
    by (simp add: Endpoint_zero_def)
  have get: "getEndpoint X e operation remote
           = (case endpointFor_cascade X e env operation remote of
                None \<Rightarrow> Endpoint_zero
              | Some ep \<Rightarrow> ep)"
  proof (cases "remote = []")
    case True
    then show ?thesis
      using assms
      by (simp add: getEndpoint_def endpointFor_cascade_def defaultRemote_def origin
          split: option.splits)
  next
    case False
    then show ?thesis
      using assms
      by (simp add: getEndpoint_def endpointFor_cascade_def defaultRemote_def origin
          named[OF False] zero split: option.splits)
  qed
  have part: "Endpoint X e ''download'' ''origin''
              = (NewEndpoint X e ''download'' v)\<lparr>Operation := ''download''\<rparr>"
    if "Get env ''lfs.url'' = None" and "Get env ''remote.origin.lfsurl'' = Some v"
    using assms that
    by (simp add: Endpoint_def getEndpoint_def defaultRemote_def RemoteEndpoint_def)
  show ?thesis
    using get part by (simp add: Endpoint_def)
qed

text \<open>
  The scenario of the spec: \<open>lfs.url\<close> unset, \<open>remote.origin.lfsurl = https://a/api\<close> and
  \<open>remote.origin.url = https://a/repo.git\<close>.
\<close>

theorem Endpoint_resolution_cascade_witness:
  "Endpoint model_pkgs
      (finder_of [(''remote.origin.lfsurl'', ''https://a/api''),
                  (''remote.origin.url'', ''https://a/repo.git'')] [])
      ''download'' ''origin''
     = Endpoint_zero\<lparr>Url := ''https://a/api'', Operation := ''download''\<rparr>"
proof -
  let ?kvs = "[(''remote.origin.lfsurl'', ''https://a/api''),
               (''remote.origin.url'', ''https://a/repo.git'')]"
  let ?e = "finder_of ?kvs []"
  have env: "gitEnv ?e = Some (EnvironmentOf ?kvs)"
    by (simp add: finder_of_def)
  have g1: "Get (EnvironmentOf ?kvs) ''lfs.url'' = None"
    and g2: "Get (EnvironmentOf ?kvs) ''remote.origin.lfsurl'' = Some ''https://a/api''"
    by (simp_all add: EnvironmentOf_def)
  have p: "net_url_Parse ''https://a/api''
      = Inr (URL_zero\<lparr>Scheme := ''https'', Host := ''a'', Path := ''/api''\<rparr>)"
    by code_simp
  have s: "net_url_String (URL_zero\<lparr>Scheme := ''https'', Host := ''a'', Path := ''/api''\<rparr>)
      = ''https://a/api''"
    by code_simp
  have n: "NewEndpoint model_pkgs ?e ''download'' ''https://a/api''
      = Endpoint_zero\<lparr>Url := ''https://a/api''\<rparr>"
    using s
    by (simp add: NewEndpoint_def ReplaceUrlAlias_no_aliases finder_of_def model_pkgs_sel p
        HasPrefix_def URL_zero_def)
  have "Endpoint model_pkgs ?e ''download'' ''origin''
      = (NewEndpoint model_pkgs ?e ''download'' ''https://a/api'')\<lparr>Operation := ''download''\<rparr>"
    using Endpoint_resolution_cascade[OF env, where X = model_pkgs and v = "''https://a/api''"] g1 g2
    by blast
  then show ?thesis using n by simp
qed

section \<open>Properties of the access-mode cache\<close>

lemma Contains_byte: "Contains s [c] \<longleftrightarrow> c \<in> set s"
  by (induction s) (auto simp: HasPrefix_def)

lemma urlWithoutAuth_no_at: "CHR ''@'' \<notin> set rawurl \<Longrightarrow> urlWithoutAuth X rawurl = rawurl"
  by (simp add: urlWithoutAuth_def Contains_byte)

lemma fetchGitAccess_frame:
  "gitEnv (snd (fetchGitAccess e u)) = gitEnv e"
  "urlAccess (snd (fetchGitAccess e u)) = urlAccess e"
  "urlConfig (snd (fetchGitAccess e u)) = urlConfig e"
  "gitConfig (snd (fetchGitAccess e u)) = gitConfig e"
  "urlConfigGets (snd (fetchGitAccess e u)) = urlConfigGets e @ [(''lfs'', u, ''access'')]"
  by (simp_all add: fetchGitAccess_def Let_def)

lemma fetchGitAccess_mode:
  "fst (fetchGitAccess e u)
     = (if fst (urlConfig e ''lfs'' u ''access'') = [] then NoneAccess
        else if ToLower (fst (urlConfig e ''lfs'' u ''access'')) = PrivateAccess then BasicAccess
        else ToLower (fst (urlConfig e ''lfs'' u ''access'')))"
  by (simp add: fetchGitAccess_def Let_def)

text \<open>The three ways through \<open>AccessFor\<close>, by the key \<open>k\<close> that the URL is cached under.\<close>

lemma AccessFor_nil_env:
  assumes "gitEnv e = None"
  shows "AccessFor X e rawurl = (\<lparr>mode = NoneAccess, url = urlWithoutAuth X rawurl\<rparr>, e)"
  using assms by (simp add: AccessFor_def)

lemma AccessFor_hit:
  assumes "gitEnv e = Some env" and "urlAccess e (urlWithoutAuth X rawurl) = Some m"
  shows "AccessFor X e rawurl = (\<lparr>mode = m, url = urlWithoutAuth X rawurl\<rparr>, e)"
  using assms by (simp add: AccessFor_def)

lemma AccessFor_miss:
  assumes "gitEnv e = Some env" and "urlAccess e (urlWithoutAuth X rawurl) = None"
  shows "AccessFor X e rawurl =
           (\<lparr>mode = fst (fetchGitAccess e (urlWithoutAuth X rawurl)), url = urlWithoutAuth X rawurl\<rparr>,
            (snd (fetchGitAccess e (urlWithoutAuth X rawurl)))
              \<lparr>urlAccess := (urlAccess e)(urlWithoutAuth X rawurl
                                \<mapsto> fst (fetchGitAccess e (urlWithoutAuth X rawurl)))\<rparr>)"
proof -
  obtain fetched e1 where fe: "fetchGitAccess e (urlWithoutAuth X rawurl) = (fetched, e1)"
    by fastforce
  have "urlAccess e1 = urlAccess e"
    using fetchGitAccess_frame(2)[of e "urlWithoutAuth X rawurl"] fe by simp
  then show ?thesis
    using assms by (simp add: AccessFor_def Let_def urlAccess_at_def fe)
qed

lemma AccessFor_cases:
  obtains (nil) "gitEnv e = None"
    | (hit) env m where "gitEnv e = Some env" "urlAccess e (urlWithoutAuth X rawurl) = Some m"
    | (miss) env where "gitEnv e = Some env" "urlAccess e (urlWithoutAuth X rawurl) = None"
  by (cases "gitEnv e"; cases "urlAccess e (urlWithoutAuth X rawurl)") auto

text \<open>
  Claim C6. Two calls of \<open>AccessFor\<close> in a row with the same URL return the same access
  (mode and URL); the second call leaves the finder as it is, in particular it adds no
  call of \<open>urlConfig.Get\<close>; and its result does not depend on the configuration: it is the
  same with any other \<open>urlConfig\<close> put in place after the first call.
\<close>

theorem AccessFor_twice_same_mode:
  "fst (AccessFor X (snd (AccessFor X e rawurl)) rawurl) = fst (AccessFor X e rawurl)
   \<and> snd (AccessFor X (snd (AccessFor X e rawurl)) rawurl) = snd (AccessFor X e rawurl)
   \<and> urlConfigGets (snd (AccessFor X (snd (AccessFor X e rawurl)) rawurl))
       = urlConfigGets (snd (AccessFor X e rawurl))
   \<and> (\<forall>cfg. fst (AccessFor X ((snd (AccessFor X e rawurl))\<lparr>urlConfig := cfg\<rparr>) rawurl)
              = fst (AccessFor X e rawurl))"
proof (cases rule: AccessFor_cases[where e = e and X = X and rawurl = rawurl])
  case nil
  then show ?thesis by (simp add: AccessFor_nil_env)
next
  case (hit env m)
  then show ?thesis by (simp add: AccessFor_hit)
next
  case (miss env)
  let ?k = "urlWithoutAuth X rawurl"
  let ?e1 = "snd (AccessFor X e rawurl)"
  have first: "AccessFor X e rawurl =
           (\<lparr>mode = fst (fetchGitAccess e ?k), url = ?k\<rparr>,
            (snd (fetchGitAccess e ?k))\<lparr>urlAccess := (urlAccess e)(?k \<mapsto> fst (fetchGitAccess e ?k))\<rparr>)"
    using AccessFor_miss[OF miss] .
  have env1: "gitEnv (?e1\<lparr>urlConfig := cfg\<rparr>) = Some env" for cfg
    by (simp add: first fetchGitAccess_frame miss)
  have cache1: "urlAccess (?e1\<lparr>urlConfig := cfg\<rparr>) ?k = Some (fst (fetchGitAccess e ?k))" for cfg
    by (simp add: first)
  have any: "AccessFor X (?e1\<lparr>urlConfig := cfg\<rparr>) rawurl
      = (\<lparr>mode = fst (fetchGitAccess e ?k), url = ?k\<rparr>, ?e1\<lparr>urlConfig := cfg\<rparr>)" for cfg
    using AccessFor_hit[OF env1 cache1] .
  have same: "AccessFor X ?e1 rawurl = (\<lparr>mode = fst (fetchGitAccess e ?k), url = ?k\<rparr>, ?e1)"
    using any[of "urlConfig ?e1"] by simp
  show ?thesis
    by (simp add: same any) (simp add: first)
qed

text \<open>
  With \<open>lfs.https://h/r.access = NTLM\<close> configured: both calls return \<open>ntlm\<close>, and after
  the second call the configuration has been read once.
\<close>

theorem AccessFor_twice_same_mode_witness:
  "mode (fst (AccessFor model_pkgs (finder_of [(''lfs.https://h/r.access'', ''NTLM'')] [])
                ''https://h/r'')) = ''ntlm''
   \<and> mode (fst (AccessFor model_pkgs
                (snd (AccessFor model_pkgs (finder_of [(''lfs.https://h/r.access'', ''NTLM'')] [])
                        ''https://h/r''))
                ''https://h/r'')) = ''ntlm''
   \<and> urlConfigGets (snd (AccessFor model_pkgs
                (snd (AccessFor model_pkgs (finder_of [(''lfs.https://h/r.access'', ''NTLM'')] [])
                        ''https://h/r''))
                ''https://h/r'')) = [(''lfs'', ''https://h/r'', ''access'')]"
proof -
  let ?e = "finder_of [(''lfs.https://h/r.access'', ''NTLM'')] []"
  have k: "urlWithoutAuth model_pkgs ''https://h/r'' = ''https://h/r''"
    by (simp add: urlWithoutAuth_no_at)
  have low: "ToLower ''NTLM'' = ''ntlm''"
    by (simp add: ToLower_def toLowerByte_def byteIn_def)
  have one: "AccessFor model_pkgs ?e ''https://h/r''
      = (\<lparr>mode = ''ntlm'', url = ''https://h/r''\<rparr>,
         ?e\<lparr>urlConfigGets := [(''lfs'', ''https://h/r'', ''access'')],
            urlAccess := [''https://h/r'' \<mapsto> ''ntlm'']\<rparr>)"
    by (simp add: AccessFor_def k fetchGitAccess_def finder_of_def model_NewURLConfig_def
        EnvironmentOf_def low PrivateAccess_def urlAccess_at_def Let_def)
  from AccessFor_twice_same_mode[of model_pkgs ?e "''https://h/r''"]
  show ?thesis by (simp add: one)
qed

text \<open>
  Claim C7. \<open>SetAccess\<close> with the mode \<open>none\<close> or the empty mode removes the local key
  \<open>lfs.<url>.access\<close> and caches \<open>none\<close> for the URL, so that \<open>AccessFor\<close> on any raw URL
  cached under that URL then returns \<open>none\<close> without a call of \<open>urlConfig.Get\<close>, whatever the
  configuration holds; with any other mode it stores the mode under the local key and
  caches it. No other key of the local configuration and no other entry of the cache
  changes.
\<close>

theorem SetAccess_persists_and_caches:
  "(mode a = emptyAccess \<or> mode a = NoneAccess \<longrightarrow>
      gitConfig (SetAccess e a) (''lfs.'' @ url a @ ''.access'') = None
      \<and> urlAccess (SetAccess e a) (url a) = Some NoneAccess
      \<and> (\<forall>X rawurl. urlWithoutAuth X rawurl = url a \<longrightarrow>
            fst (AccessFor X (SetAccess e a) rawurl) = \<lparr>mode = NoneAccess, url = url a\<rparr>
            \<and> urlConfigGets (snd (AccessFor X (SetAccess e a) rawurl)) = urlConfigGets e))
   \<and> (mode a \<noteq> emptyAccess \<and> mode a \<noteq> NoneAccess \<longrightarrow>
      gitConfig (SetAccess e a) (''lfs.'' @ url a @ ''.access'') = Some (mode a)
      \<and> urlAccess (SetAccess e a) (url a) = Some (mode a))
   \<and> (\<forall>k. k \<noteq> ''lfs.'' @ url a @ ''.access'' \<longrightarrow> gitConfig (SetAccess e a) k = gitConfig e k)
   \<and> (\<forall>u. u \<noteq> url a \<longrightarrow> urlAccess (SetAccess e a) u = urlAccess e u)"
proof -
  have frame: "gitEnv (SetAccess e a) = gitEnv e" "urlConfigGets (SetAccess e a) = urlConfigGets e"
    by (simp_all add: SetAccess_def Let_def)
  have none: "fst (AccessFor X (SetAccess e a) rawurl) = \<lparr>mode = NoneAccess, url = url a\<rparr>
            \<and> urlConfigGets (snd (AccessFor X (SetAccess e a) rawurl)) = urlConfigGets e"
    if m: "mode a = emptyAccess \<or> mode a = NoneAccess" and k: "urlWithoutAuth X rawurl = url a"
    for X rawurl
  proof (cases "gitEnv e")
    case None
    then show ?thesis
      using AccessFor_nil_env[of "SetAccess e a" X rawurl] by (simp add: frame k)
  next
    case (Some env)
    have "urlAccess (SetAccess e a) (urlWithoutAuth X rawurl) = Some NoneAccess"
      using m by (auto simp: SetAccess_def Let_def k)
    from AccessFor_hit[OF _ this, of env] Some show ?thesis
      by (simp add: frame k)
  qed
  show ?thesis
    using none by (auto simp: SetAccess_def Let_def SetLocal_def UnsetLocalKey_def)
qed

text \<open>
  The cache holds \<open>ntlm\<close> for \<open>https://h/r\<close> and the configuration says \<open>basic\<close>: after
  \<open>SetAccess\<close> with \<open>none\<close> the local key is gone and \<open>AccessFor\<close> returns \<open>none\<close>.
\<close>

theorem SetAccess_persists_and_caches_witness:
  "gitConfig
      (SetAccess
         (finder_of [(''lfs.https://h/r.access'', ''basic'')] []
            \<lparr>gitConfig := [''lfs.https://h/r.access'' \<mapsto> ''ntlm''],
             urlAccess := [''https://h/r'' \<mapsto> ''ntlm'']\<rparr>)
         \<lparr>mode = ''none'', url = ''https://h/r''\<rparr>)
      ''lfs.https://h/r.access'' = None
   \<and> mode (fst (AccessFor model_pkgs
        (SetAccess
           (finder_of [(''lfs.https://h/r.access'', ''basic'')] []
              \<lparr>gitConfig := [''lfs.https://h/r.access'' \<mapsto> ''ntlm''],
               urlAccess := [''https://h/r'' \<mapsto> ''ntlm'']\<rparr>)
           \<lparr>mode = ''none'', url = ''https://h/r''\<rparr>)
        ''https://h/r'')) = ''none''
   \<and> gitConfig
      (SetAccess (finder_of [] []) \<lparr>mode = ''negotiate'', url = ''https://h/r''\<rparr>)
      ''lfs.https://h/r.access'' = Some ''negotiate''"
proof -
  let ?e = "finder_of [(''lfs.https://h/r.access'', ''basic'')] []
              \<lparr>gitConfig := [''lfs.https://h/r.access'' \<mapsto> ''ntlm''],
               urlAccess := [''https://h/r'' \<mapsto> ''ntlm'']\<rparr>"
  let ?a = "\<lparr>mode = ''none'', url = ''https://h/r''\<rparr>"
  let ?b = "\<lparr>mode = ''negotiate'', url = ''https://h/r''\<rparr>"
  have k: "urlWithoutAuth model_pkgs ''https://h/r'' = url ?a"
    by (simp add: urlWithoutAuth_no_at)
  have m: "mode ?a = emptyAccess \<or> mode ?a = NoneAccess"
    by (simp add: NoneAccess_def)
  have n: "mode ?b \<noteq> emptyAccess \<and> mode ?b \<noteq> NoneAccess"
    by (simp add: NoneAccess_def emptyAccess_def)
  have one: "gitConfig (SetAccess ?e ?a) (''lfs.'' @ url ?a @ ''.access'') = None
      \<and> fst (AccessFor model_pkgs (SetAccess ?e ?a) ''https://h/r'') = \<lparr>mode = NoneAccess, url = url ?a\<rparr>"
    using SetAccess_persists_and_caches[of ?a ?e] m k by blast
  have two: "gitConfig (SetAccess (finder_of [] []) ?b) (''lfs.'' @ url ?b @ ''.access'') = Some (mode ?b)"
    using SetAccess_persists_and_caches[of ?b "finder_of [] []"] n by blast
  show ?thesis
    using one two by (simp add: NoneAccess_def)
qed

text \<open>
  Claim C9. On a cache miss (a configuration source is there and the cache has no entry
  for the URL without its credentials), a configured value \<open>private\<close> makes \<open>AccessFor\<close>
  return the mode \<open>basic\<close>, which is also what it caches.
\<close>

theorem AccessFor_private_reads_as_basic:
  assumes "gitEnv e \<noteq> None"
    and "urlAccess e (urlWithoutAuth X rawurl) = None"
    and "fst (urlConfig e ''lfs'' (urlWithoutAuth X rawurl) ''access'') = ''private''"
  shows "fst (AccessFor X e rawurl) = \<lparr>mode = ''basic'', url = urlWithoutAuth X rawurl\<rparr>
       \<and> urlAccess (snd (AccessFor X e rawurl)) (urlWithoutAuth X rawurl) = Some ''basic''"
proof -
  from assms(1) obtain env where env: "gitEnv e = Some env" by auto
  have low: "ToLower ''private'' = ''private''"
    by (simp add: ToLower_def toLowerByte_def byteIn_def)
  have f: "fst (fetchGitAccess e (urlWithoutAuth X rawurl)) = ''basic''"
    by (simp add: fetchGitAccess_mode assms(3) low PrivateAccess_def BasicAccess_def)
  show ?thesis
    by (simp add: AccessFor_miss[OF env assms(2)] f)
qed

text \<open>The URL carries credentials; the value is configured for the URL without them.\<close>

theorem AccessFor_private_reads_as_basic_witness:
  "urlWithoutAuth model_pkgs ''https://user:pw@h/r'' = ''https://h/r''
   \<and> fst (AccessFor model_pkgs (finder_of [(''lfs.https://h/r.access'', ''private'')] [])
            ''https://user:pw@h/r'')
       = \<lparr>mode = ''basic'', url = ''https://h/r''\<rparr>"
proof -
  let ?e = "finder_of [(''lfs.https://h/r.access'', ''private'')] []"
  have p: "net_url_Parse ''https://user:pw@h/r''
      = Inr (URL_zero\<lparr>Scheme := ''https'',
               User := Some \<lparr>username = ''user'', password = ''pw'', passwordSet = True\<rparr>,
               Host := ''h'', Path := ''/r''\<rparr>)"
    by code_simp
  have s: "net_url_String (URL_zero\<lparr>Scheme := ''https'', Host := ''h'', Path := ''/r''\<rparr>)
      = ''https://h/r''"
    by code_simp
  have k: "urlWithoutAuth model_pkgs ''https://user:pw@h/r'' = ''https://h/r''"
    using s by (simp add: urlWithoutAuth_def Contains_byte model_pkgs_sel p URL_zero_def)
  have h1: "gitEnv ?e \<noteq> None" and h2: "urlAccess ?e (urlWithoutAuth model_pkgs ''https://user:pw@h/r'') = None"
    by (simp_all add: finder_of_def)
  have h3: "fst (urlConfig ?e ''lfs'' (urlWithoutAuth model_pkgs ''https://user:pw@h/r'') ''access'')
      = ''private''"
    by (simp add: k finder_of_def model_NewURLConfig_def EnvironmentOf_def)
  from AccessFor_private_reads_as_basic[OF h1 h2 h3] k
  show ?thesis by simp
qed

text \<open>
  Claim C8, as amended. \<open>AccessMode\<close> is a string type, and \<open>fetchGitAccess\<close> returns any
  configured value, lower-cased. If every mode in the cache is one of the six named
  values, and the value configured for the URL is empty or, lower-cased, one of them,
  then the mode that \<open>AccessFor\<close> returns is one of the six, and the cache afterwards
  still holds none but these.
\<close>

theorem AccessFor_mode_named:
  assumes "\<forall>k m. urlAccess e k = Some m \<longrightarrow> m \<in> named_modes"
    and "fst (urlConfig e ''lfs'' (urlWithoutAuth X rawurl) ''access'') = []
         \<or> ToLower (fst (urlConfig e ''lfs'' (urlWithoutAuth X rawurl) ''access'')) \<in> named_modes"
  shows "mode (fst (AccessFor X e rawurl)) \<in> named_modes
       \<and> (\<forall>k m. urlAccess (snd (AccessFor X e rawurl)) k = Some m \<longrightarrow> m \<in> named_modes)"
proof (cases rule: AccessFor_cases[where e = e and X = X and rawurl = rawurl])
  case nil
  then show ?thesis
    using assms(1) by (simp add: AccessFor_nil_env named_modes_def)
next
  case (hit env m)
  then show ?thesis
    using assms(1) by (simp add: AccessFor_hit)
next
  case (miss env)
  have f: "fst (fetchGitAccess e (urlWithoutAuth X rawurl)) \<in> named_modes"
    using assms(2) by (auto simp: fetchGitAccess_mode named_modes_def)
  show ?thesis
    using assms(1) f by (simp add: AccessFor_miss[OF miss])
qed

text \<open>A cache that holds \<open>negotiate\<close> for another URL, and \<open>NTLM\<close> configured for this one.\<close>

theorem AccessFor_mode_named_witness:
  "mode (fst (AccessFor model_pkgs
        (finder_of [(''lfs.https://h/r.access'', ''NTLM'')] []
           \<lparr>urlAccess := [''https://other/'' \<mapsto> ''negotiate'']\<rparr>)
        ''https://h/r'')) \<in> named_modes
   \<and> mode (fst (AccessFor model_pkgs
        (finder_of [(''lfs.https://h/r.access'', ''NTLM'')] []
           \<lparr>urlAccess := [''https://other/'' \<mapsto> ''negotiate'']\<rparr>)
        ''https://h/r'')) = ''ntlm''"
proof -
  let ?e = "finder_of [(''lfs.https://h/r.access'', ''NTLM'')] []
              \<lparr>urlAccess := [''https://other/'' \<mapsto> ''negotiate'']\<rparr>"
  have k: "urlWithoutAuth model_pkgs ''https://h/r'' = ''https://h/r''"
    by (simp add: urlWithoutAuth_no_at)
  have low: "ToLower ''NTLM'' = ''ntlm''"
    by (simp add: ToLower_def toLowerByte_def byteIn_def)
  have h1: "\<forall>k m. urlAccess ?e k = Some m \<longrightarrow> m \<in> named_modes"
    by (simp add: finder_of_def named_modes_def NegotiateAccess_def)
  have v: "fst (urlConfig ?e ''lfs'' (urlWithoutAuth model_pkgs ''https://h/r'') ''access'') = ''NTLM''"
    by (simp add: k finder_of_def model_NewURLConfig_def EnvironmentOf_def)
  have h2: "fst (urlConfig ?e ''lfs'' (urlWithoutAuth model_pkgs ''https://h/r'') ''access'') = []
         \<or> ToLower (fst (urlConfig ?e ''lfs'' (urlWithoutAuth model_pkgs ''https://h/r'') ''access''))
              \<in> named_modes"
    unfolding v low by (simp add: named_modes_def NTLMAccess_def)
  have env: "gitEnv ?e = Some (EnvironmentOf [(''lfs.https://h/r.access'', ''NTLM'')])"
    and c: "urlAccess ?e (urlWithoutAuth model_pkgs ''https://h/r'') = None"
    by (simp_all add: finder_of_def k)
  have f: "fst (fetchGitAccess ?e ''https://h/r'') = ''ntlm''"
    by (simp add: fetchGitAccess_mode low finder_of_def model_NewURLConfig_def EnvironmentOf_def
        PrivateAccess_def)
  have r: "mode (fst (AccessFor model_pkgs ?e ''https://h/r'')) = ''ntlm''"
    unfolding AccessFor_miss[OF env c] k by (simp add: f)
  from AccessFor_mode_named[OF h1 h2] r
  show ?thesis by simp
qed

text \<open>
  The claim as written, for every configuration, fails: with \<open>Kerberos\<close> configured for the
  URL, \<open>AccessFor\<close> returns the mode \<open>kerberos\<close>, which is none of the six.
\<close>

theorem AccessFor_mode_not_closed_counterexample:
  "mode (fst (AccessFor model_pkgs (finder_of [(''lfs.https://h/r.access'', ''Kerberos'')] [])
                ''https://h/r'')) = ''kerberos''
   \<and> ''kerberos'' \<notin> named_modes"
proof -
  let ?e = "finder_of [(''lfs.https://h/r.access'', ''Kerberos'')] []"
  have k: "urlWithoutAuth model_pkgs ''https://h/r'' = ''https://h/r''"
    by (simp add: urlWithoutAuth_no_at)
  have low: "ToLower ''Kerberos'' = ''kerberos''"
    by (simp add: ToLower_def toLowerByte_def byteIn_def)
  have env: "gitEnv ?e = Some (EnvironmentOf [(''lfs.https://h/r.access'', ''Kerberos'')])"
    and c: "urlAccess ?e (urlWithoutAuth model_pkgs ''https://h/r'') = None"
    by (simp_all add: finder_of_def k)
  have f: "fst (fetchGitAccess ?e ''https://h/r'') = ''kerberos''"
    by (simp add: fetchGitAccess_mode low finder_of_def model_NewURLConfig_def EnvironmentOf_def
        PrivateAccess_def)
  have r: "mode (fst (AccessFor model_pkgs ?e ''https://h/r'')) = ''kerberos''"
    unfolding AccessFor_miss[OF env c] k by (simp add: f)
  have n: "''kerberos'' \<notin> named_modes"
    by (simp add: named_modes_def NoneAccess_def BasicAccess_def PrivateAccess_def
        NegotiateAccess_def NTLMAccess_def emptyAccess_def)
  show ?thesis using r n by simp
qed

text \<open>
  Claim C10. For a URL without the byte \<open>@\<close>, \<open>AccessFor\<close> does not call the URL parser (its
  result is the same whatever the collaborators are) and changes nothing in the string:
  the access it returns carries the URL as given; when a configuration source is there,
  the cache afterwards holds the returned mode under exactly that string; no other entry
  of the cache changes, so that a URL differing in a trailing slash has an entry of its
  own; and a call of \<open>urlConfig.Get\<close> that is added is for that string.
\<close>

theorem AccessFor_keeps_url_verbatim:
  assumes "CHR ''@'' \<notin> set rawurl"
  shows "url (fst (AccessFor X e rawurl)) = rawurl
       \<and> (\<forall>X'. AccessFor X' e rawurl = AccessFor X e rawurl)
       \<and> (gitEnv e \<noteq> None \<longrightarrow>
            urlAccess (snd (AccessFor X e rawurl)) rawurl = Some (mode (fst (AccessFor X e rawurl))))
       \<and> (\<forall>k. k \<noteq> rawurl \<longrightarrow> urlAccess (snd (AccessFor X e rawurl)) k = urlAccess e k)
       \<and> (urlConfigGets (snd (AccessFor X e rawurl)) = urlConfigGets e
          \<or> urlConfigGets (snd (AccessFor X e rawurl))
               = urlConfigGets e @ [(''lfs'', rawurl, ''access'')])"
proof -
  have k: "urlWithoutAuth Y rawurl = rawurl" for Y
    using assms by (rule urlWithoutAuth_no_at)
  have indep: "AccessFor X' e rawurl = AccessFor X e rawurl" for X'
    by (simp add: AccessFor_def k)
  have rest: "url (fst (AccessFor X e rawurl)) = rawurl
       \<and> (gitEnv e \<noteq> None \<longrightarrow>
            urlAccess (snd (AccessFor X e rawurl)) rawurl = Some (mode (fst (AccessFor X e rawurl))))
       \<and> (\<forall>k. k \<noteq> rawurl \<longrightarrow> urlAccess (snd (AccessFor X e rawurl)) k = urlAccess e k)
       \<and> (urlConfigGets (snd (AccessFor X e rawurl)) = urlConfigGets e
          \<or> urlConfigGets (snd (AccessFor X e rawurl))
               = urlConfigGets e @ [(''lfs'', rawurl, ''access'')])"
  proof (cases rule: AccessFor_cases[where e = e and X = X and rawurl = rawurl])
    case nil
    then show ?thesis by (simp add: AccessFor_nil_env k)
  next
    case (hit env m)
    then show ?thesis by (simp add: AccessFor_hit k)
  next
    case (miss env)
    then show ?thesis by (simp add: AccessFor_miss[OF miss] k fetchGitAccess_frame)
  qed
  show ?thesis using indep rest by blast
qed

text \<open>
  \<open>https://h/r\<close> and \<open>https://h/r/\<close>, configured with \<open>ntlm\<close> and \<open>basic\<close>: after both have
  been asked for, the cache holds the two modes under the two strings.
\<close>

theorem AccessFor_keeps_url_verbatim_witness:
  "url (fst (AccessFor model_pkgs
        (finder_of [(''lfs.https://h/r.access'', ''ntlm''), (''lfs.https://h/r/.access'', ''basic'')] [])
        ''https://h/r/'')) = ''https://h/r/''
   \<and> urlAccess (snd (AccessFor model_pkgs
        (snd (AccessFor model_pkgs
           (finder_of [(''lfs.https://h/r.access'', ''ntlm''), (''lfs.https://h/r/.access'', ''basic'')] [])
           ''https://h/r''))
        ''https://h/r/'')) ''https://h/r/'' = Some ''basic''
   \<and> urlAccess (snd (AccessFor model_pkgs
        (snd (AccessFor model_pkgs
           (finder_of [(''lfs.https://h/r.access'', ''ntlm''), (''lfs.https://h/r/.access'', ''basic'')] [])
           ''https://h/r''))
        ''https://h/r/'')) ''https://h/r'' = Some ''ntlm''"
proof -
  let ?e = "finder_of [(''lfs.https://h/r.access'', ''ntlm''), (''lfs.https://h/r/.access'', ''basic'')] []"
  let ?e1 = "snd (AccessFor model_pkgs ?e ''https://h/r'')"
  have a1: "CHR ''@'' \<notin> set ''https://h/r''" and a2: "CHR ''@'' \<notin> set ''https://h/r/''"
    by simp_all
  have k1: "urlWithoutAuth model_pkgs ''https://h/r'' = ''https://h/r''"
    and k2: "urlWithoutAuth model_pkgs ''https://h/r/'' = ''https://h/r/''"
    by (simp_all add: urlWithoutAuth_no_at)
  have low: "ToLower ''ntlm'' = ''ntlm''" "ToLower ''basic'' = ''basic''"
    by (simp_all add: ToLower_def toLowerByte_def byteIn_def)
  have env: "gitEnv ?e = Some (EnvironmentOf
      [(''lfs.https://h/r.access'', ''ntlm''), (''lfs.https://h/r/.access'', ''basic'')])"
    and c: "urlAccess ?e (urlWithoutAuth model_pkgs ''https://h/r'') = None"
    by (simp_all add: finder_of_def k1)
  note A = AccessFor_miss[OF env c]
  have f1: "fst (fetchGitAccess ?e ''https://h/r'') = ''ntlm''"
    by (simp add: fetchGitAccess_mode low finder_of_def model_NewURLConfig_def EnvironmentOf_def
        PrivateAccess_def)
  have first: "urlAccess ?e1 = [''https://h/r'' \<mapsto> ''ntlm'']"
    unfolding A k1 by (simp add: f1) (simp add: finder_of_def)
  have env1: "gitEnv ?e1 = Some (EnvironmentOf
      [(''lfs.https://h/r.access'', ''ntlm''), (''lfs.https://h/r/.access'', ''basic'')])"
    unfolding A k1 by (simp add: fetchGitAccess_frame env)
  have cfg1: "urlConfig ?e1 = urlConfig ?e"
    unfolding A k1 by (simp add: fetchGitAccess_frame)
  have c1: "urlAccess ?e1 (urlWithoutAuth model_pkgs ''https://h/r/'') = None"
    by (simp add: first k2)
  note B = AccessFor_miss[OF env1 c1]
  have f2: "fst (fetchGitAccess ?e1 ''https://h/r/'') = ''basic''"
    unfolding fetchGitAccess_mode cfg1
    by (simp add: low finder_of_def model_NewURLConfig_def EnvironmentOf_def
        PrivateAccess_def BasicAccess_def)
  have second: "mode (fst (AccessFor model_pkgs ?e1 ''https://h/r/'')) = ''basic''"
    unfolding B k2 by (simp add: f2)
  have ne: "''https://h/r'' \<noteq> ''https://h/r/''" by simp
  from AccessFor_keeps_url_verbatim[OF a2, of model_pkgs ?e]
  have u: "url (fst (AccessFor model_pkgs ?e ''https://h/r/'')) = ''https://h/r/''" by blast
  from AccessFor_keeps_url_verbatim[OF a2, of model_pkgs ?e1] env1
  have own: "urlAccess (snd (AccessFor model_pkgs ?e1 ''https://h/r/'')) ''https://h/r/''
      = Some (mode (fst (AccessFor model_pkgs ?e1 ''https://h/r/'')))"
    and other: "urlAccess (snd (AccessFor model_pkgs ?e1 ''https://h/r/'')) ''https://h/r''
      = urlAccess ?e1 ''https://h/r''"
    using ne by auto
  show ?thesis
    using u own other by (simp add: second first)
qed

end
